theory Spec2Isabelle
  imports Main
begin

section \<open>The deploy worker of the static-site hosting control plane\<close>

text \<open>
  This theory embeds \<^verbatim>\<open>Work\<close> of \<^verbatim>\<open>deployer/deployer/deployer.go\<close>: the job
  consumer that publishes a deployment's bundle to the object store, writes the per-domain
  pointer documents, broadcasts the cache invalidation and activates the deployment in the
  database. The relational store, the object store and the message broker are explicit
  components of a world record; every call that leaves the process is a step that may fail,
  as decided by a fault schedule, and is recorded in a trace.
\<close>

subsection \<open>Data model\<close>

text \<open>
  Modelled from the spec: the deployment states. The constants \<^verbatim>\<open>deployment.StateXxx\<close>
  live in the deployment model package, which the worker only imports; the spec lists the
  states \<^verbatim>\<open>pending_upload, uploaded, pending_build, pending_deploy, deployed, failed\<close>.
\<close>

datatype state =
    StatePendingUpload
  | StateUploaded
  | StatePendingBuild
  | StatePendingDeploy
  | StateDeployed
  | StateFailed

text \<open>Timestamps are whole seconds; a nullable column is an option.\<close>

record Deployment =
  depl_ID :: nat
  depl_ProjectID :: nat
  depl_UserID :: nat
  depl_Prefix :: string
  depl_Version :: nat
  depl_State :: state
  depl_CreatedAt :: int
  depl_DeployedAt :: "int option"

record Project =
  proj_ID :: nat
  proj_Name :: string
  proj_ForceHTTPS :: bool
  proj_LockedAt :: "int option"
  proj_ActiveDeploymentID :: "nat option"

record Domain =
  dom_ID :: nat
  dom_ProjectID :: nat
  dom_Name :: string

record User =
  user_ID :: nat
  user_Email :: string

text \<open>
  A table is the list of its rows; a row is found by the value of its \<^verbatim>\<open>id\<close> column and
  updated by a \<^verbatim>\<open>WHERE id = ?\<close> clause, as the queries of the worker do.
\<close>

record database =
  deployments :: "Deployment list"
  projects :: "Project list"
  domains :: "Domain list"
  users :: "User list"

text \<open>The job message, \<^verbatim>\<open>messages.DeployJobData\<close>, with the fields the worker reads.\<close>

record DeployJobData =
  DeploymentID :: nat
  SkipWebrootUpload :: bool
  SkipInvalidation :: bool
  UseRawBundle :: bool

text \<open>
  The bytes of a job either decode to a \<^verbatim>\<open>DeployJobData\<close> or make
  \<^verbatim>\<open>json.Unmarshal\<close> fail.
\<close>

datatype payload = Malformed | WellFormed DeployJobData

text \<open>The output of \<^verbatim>\<open>json.Marshal\<close> is represented by the JSON value it encodes.\<close>

datatype json =
    JBool bool
  | JNum int
  | JString string
  | JArray "json list"
  | JObject "(string \<times> json) list"

text \<open>
  One header of the tar stream with the bytes that follow it. The content of an object in
  the store is plain bytes, a JSON document, or a gzip stream seen through what the tar
  reader yields from it: its entries in order, then \<^verbatim>\<open>io.EOF\<close> or, when the flag is
  set, a read error.
\<close>

record tar_entry =
  hdr_Name :: string
  hdr_IsDir :: bool
  hdr_Data :: string

datatype blob =
    Bytes string
  | Json json
  | TarGz "tar_entry list" bool

record s3object =
  obj_body :: blob
  obj_contentType :: string
  obj_acl :: string

record message =
  msg_exchange :: string
  msg_route :: string
  msg_body :: json

datatype error =
    ErrJSON
  | ErrDBConn
  | ErrDB
  | ErrRecordNotFound
  | errUnexpectedState
  | ErrProjectLocked
  | ErrTempFile
  | ErrS3
  | ErrGzip
  | ErrTar
  | ErrMQ
  | ErrTrack
  | PanicNilDeref

text \<open>
  Every call that leaves the process, in the order the worker makes them. An upload and a
  broadcast carry whether they succeeded.
\<close>

datatype event =
    EvDBConn
  | is_read_deployment: EvFirstDeployment nat
  | EvFirstProject nat
  | EvTempFile string
  | is_download: EvDownload string
  | is_upload: EvUpload (up_key: string) (up_object: s3object) (up_ok: bool)
  | EvDomainNames nat
  | is_publish: EvPublish (pub_message: message) (pub_ok: bool)
  | EvBegin
  | EvUpdateState nat state
  | EvUpdateProject nat nat
  | EvCommit
  | EvRollback
  | EvFirstUser nat
  | EvTrack string string json bool

text \<open>
  The world a run acts on: the committed database, the one bucket of the object store (the
  region and the bucket name are the same in every call), the messages the broker accepted,
  the trace, and the number of external calls made so far.
\<close>

record world =
  db :: database
  bucket :: "string \<rightharpoonup> s3object"
  mq :: "message list"
  trace :: "event list"
  clock :: nat

text \<open>
  What the worker takes from its surroundings: the fault schedule (the \<open>n\<close>-th external
  call fails when \<open>faults n\<close> holds), the current time, the registered MIME table, and the
  constants \<^verbatim>\<open>shared.DefaultDomain\<close>, \<^verbatim>\<open>exchanges.Edges\<close> and
  \<^verbatim>\<open>exchanges.RouteV1Invalidation\<close>, whose declarations the worker imports.
\<close>

record env =
  faults :: "nat \<Rightarrow> bool"
  now :: int
  mime_types :: "string \<Rightarrow> string"
  DefaultDomain :: string
  Edges :: string
  RouteV1Invalidation :: string

subsection \<open>External calls\<close>

definition log :: "event \<Rightarrow> world \<Rightarrow> world" where
  "log e w = w\<lparr>trace := trace w @ [e], clock := Suc (clock w)\<rparr>"

definition faulty :: "env \<Rightarrow> world \<Rightarrow> bool" where
  "faulty en w = faults en (clock w)"

definition json_Unmarshal :: "payload \<Rightarrow> error + DeployJobData" where
  "json_Unmarshal data = (case data of Malformed \<Rightarrow> Inl ErrJSON | WellFormed d \<Rightarrow> Inr d)"

definition dbconn_DB :: "env \<Rightarrow> world \<Rightarrow> (error + unit) \<times> world" where
  "dbconn_DB en w = (if faulty en w then Inl ErrDBConn else Inr (), log EvDBConn w)"

definition First_Deployment :: "env \<Rightarrow> nat \<Rightarrow> world \<Rightarrow> (error + Deployment) \<times> world" where
  "First_Deployment en i w =
     (if faulty en w then Inl ErrDB
      else case find (\<lambda>r. depl_ID r = i) (deployments (db w)) of
             None \<Rightarrow> Inl ErrRecordNotFound
           | Some r \<Rightarrow> Inr r,
      log (EvFirstDeployment i) w)"

definition First_Project :: "env \<Rightarrow> nat \<Rightarrow> world \<Rightarrow> (error + Project) \<times> world" where
  "First_Project en i w =
     (if faulty en w then Inl ErrDB
      else case find (\<lambda>r. proj_ID r = i) (projects (db w)) of
             None \<Rightarrow> Inl ErrRecordNotFound
           | Some r \<Rightarrow> Inr r,
      log (EvFirstProject i) w)"

definition First_User :: "env \<Rightarrow> nat \<Rightarrow> world \<Rightarrow> (error + User) \<times> world" where
  "First_User en i w =
     (if faulty en w then Inl ErrDB
      else case find (\<lambda>r. user_ID r = i) (users (db w)) of
             None \<Rightarrow> Inl ErrRecordNotFound
           | Some r \<Rightarrow> Inr r,
      log (EvFirstUser i) w)"

definition TempFile :: "env \<Rightarrow> string \<Rightarrow> world \<Rightarrow> (error + unit) \<times> world" where
  "TempFile en name w = (if faulty en w then Inl ErrTempFile else Inr (), log (EvTempFile name) w)"

definition S3_Download :: "env \<Rightarrow> string \<Rightarrow> world \<Rightarrow> (error + blob) \<times> world" where
  "S3_Download en key w =
     (if faulty en w then Inl ErrS3
      else case bucket w key of None \<Rightarrow> Inl ErrS3 | Some ob \<Rightarrow> Inr (obj_body ob),
      log (EvDownload key) w)"

definition S3_Upload ::
  "env \<Rightarrow> string \<Rightarrow> blob \<Rightarrow> string \<Rightarrow> string \<Rightarrow> world \<Rightarrow> (error + unit) \<times> world" where
  "S3_Upload en key body contentType acl w =
     (let ob = \<lparr>obj_body = body, obj_contentType = contentType, obj_acl = acl\<rparr>
      in if faulty en w then (Inl ErrS3, log (EvUpload key ob False) w)
         else (Inr (), log (EvUpload key ob True) (w\<lparr>bucket := (bucket w)(key \<mapsto> ob)\<rparr>)))"

definition Publish :: "env \<Rightarrow> message \<Rightarrow> world \<Rightarrow> (error + unit) \<times> world" where
  "Publish en m w =
     (if faulty en w then (Inl ErrMQ, log (EvPublish m False) w)
      else (Inr (), log (EvPublish m True) (w\<lparr>mq := mq w @ [m]\<rparr>)))"

definition Track :: "env \<Rightarrow> string \<Rightarrow> string \<Rightarrow> json \<Rightarrow> world \<Rightarrow> (error + unit) \<times> world" where
  "Track en uid ev props w =
     (if faulty en w then (Inl ErrTrack, log (EvTrack uid ev props False) w)
      else (Inr (), log (EvTrack uid ev props True) w))"

subsection \<open>Library functions\<close>

text \<open>\<^verbatim>\<open>strconv.Itoa\<close> and the verb \<^verbatim>\<open>%d\<close> on a number that is not negative.\<close>

fun string_of_nat :: "nat \<Rightarrow> string" where
  "string_of_nat n =
     (if n < 10 then [''0123456789'' ! n]
      else string_of_nat (n div 10) @ [''0123456789'' ! (n mod 10)])"

declare string_of_nat.simps [simp del]

text \<open>
  \<^verbatim>\<open>path.Clean\<close>: empty and \<^verbatim>\<open>.\<close> elements go, an inner \<^verbatim>\<open>..\<close> goes with the
  element before it, a \<^verbatim>\<open>..\<close> at the start of a rooted path goes, and an empty result
  is \<^verbatim>\<open>.\<close>. The elements kept so far are held last first.
\<close>

fun split_slash :: "string \<Rightarrow> string list" where
  "split_slash [] = [[]]"
| "split_slash (c # cs) =
     (if c = CHR ''/'' then [] # split_slash cs
      else case split_slash cs of [] \<Rightarrow> [[c]] | x # xs \<Rightarrow> (c # x) # xs)"

fun join_slash :: "string list \<Rightarrow> string" where
  "join_slash [] = []"
| "join_slash [x] = x"
| "join_slash (x # y # ys) = x @ ''/'' @ join_slash (y # ys)"

definition clean_step :: "bool \<Rightarrow> string list \<Rightarrow> string \<Rightarrow> string list" where
  "clean_step rooted out c =
     (if c = [] \<or> c = ''.'' then out
      else if c = ''..'' then
        (case out of
           [] \<Rightarrow> if rooted then [] else [''..'']
         | x # xs \<Rightarrow> if x = ''..'' then ''..'' # out else xs)
      else c # out)"

definition path_Clean :: "string \<Rightarrow> string" where
  "path_Clean p =
     (let rooted = (case p of [] \<Rightarrow> False | c # _ \<Rightarrow> c = CHR ''/'');
          out = rev (foldl (clean_step rooted) [] (split_slash p));
          s = (if rooted then ''/'' else []) @ join_slash out
      in if s = [] then ''.'' else s)"

text \<open>
  \<^verbatim>\<open>filepath.Ext\<close>: the suffix from the last dot of the last element, scanning from the
  end and stopping at a separator.
\<close>

fun ext_scan :: "string \<Rightarrow> string \<Rightarrow> string" where
  "ext_scan [] acc = []"
| "ext_scan (c # cs) acc =
     (if c = CHR ''/'' then []
      else if c = CHR ''.'' then c # acc
      else ext_scan cs (c # acc))"

definition filepath_Ext :: "string \<Rightarrow> string" where
  "filepath_Ext p = ext_scan (rev p) []"

text \<open>
  \<^verbatim>\<open>mime.TypeByExtension\<close> looks the extension up in the registered table; the worker
  then cuts the type at its first semicolon.
\<close>

definition mime_TypeByExtension :: "env \<Rightarrow> string \<Rightarrow> string" where
  "mime_TypeByExtension en ext = mime_types en ext"

definition strip_params :: "string \<Rightarrow> string" where
  "strip_params contentType = takeWhile (\<lambda>c. c \<noteq> CHR '';'') contentType"

subsection \<open>The models the worker calls\<close>

text \<open>
  Modelled from the spec: \<^verbatim>\<open>Deployment.PrefixID\<close>, of the deployment model package. The
  prefix and the id together form the storage-path component \<^verbatim>\<open><prefix>-<id>\<close>.
\<close>

definition PrefixID :: "Deployment \<Rightarrow> string" where
  "PrefixID depl = depl_Prefix depl @ ''-'' @ string_of_nat (depl_ID depl)"

text \<open>
  Modelled from the spec: \<^verbatim>\<open>Project.DefaultDomainName\<close> and
  \<^verbatim>\<open>Project.DomainNames\<close>, of the project model package. Every project owns a default
  domain derived from its name; the names bound to a project are the default domain and the
  names of its explicit domains. The query can fail.
\<close>

definition DefaultDomainName :: "env \<Rightarrow> Project \<Rightarrow> string" where
  "DefaultDomainName en proj = proj_Name proj @ ''.'' @ DefaultDomain en"

definition bound_names :: "env \<Rightarrow> database \<Rightarrow> Project \<Rightarrow> string list" where
  "bound_names en d proj =
     DefaultDomainName en proj #
     map dom_Name (filter (\<lambda>r. dom_ProjectID r = proj_ID proj) (domains d))"

definition DomainNames :: "env \<Rightarrow> Project \<Rightarrow> world \<Rightarrow> (error + string list) \<times> world" where
  "DomainNames en proj w =
     (if faulty en w then Inl ErrDB else Inr (bound_names en (db w) proj),
      log (EvDomainNames (proj_ID proj)) w)"

text \<open>
  A transaction works on a copy of the committed database, which \<^verbatim>\<open>Commit\<close> installs
  and \<^verbatim>\<open>Rollback\<close> drops.
\<close>

definition db_Begin :: "env \<Rightarrow> world \<Rightarrow> (error + database) \<times> world" where
  "db_Begin en w = (if faulty en w then Inl ErrDB else Inr (db w), log EvBegin w)"

definition tx_Commit :: "env \<Rightarrow> database \<Rightarrow> world \<Rightarrow> (error + unit) \<times> world" where
  "tx_Commit en tx w =
     (if faulty en w then (Inl ErrDB, log EvCommit w)
      else (Inr (), log EvCommit (w\<lparr>db := tx\<rparr>)))"

definition tx_Rollback :: "world \<Rightarrow> world" where
  "tx_Rollback w = log EvRollback w"

text \<open>
  Modelled from the spec: \<^verbatim>\<open>Deployment.UpdateState\<close>, of the deployment model package,
  called with the target state \<^verbatim>\<open>deployed\<close>: it sets the state and \<^verbatim>\<open>deployed_at\<close>
  of the row with the deployment's id, and of the value in memory.
\<close>

definition set_state :: "env \<Rightarrow> state \<Rightarrow> Deployment \<Rightarrow> Deployment" where
  "set_state en s r =
     r\<lparr>depl_State := s,
       depl_DeployedAt := (if s = StateDeployed then Some (now en) else depl_DeployedAt r)\<rparr>"

definition UpdateState ::
  "env \<Rightarrow> Deployment \<Rightarrow> database \<Rightarrow> state \<Rightarrow> world \<Rightarrow> (error + Deployment \<times> database) \<times> world" where
  "UpdateState en depl tx s w =
     (if faulty en w then Inl ErrDB
      else Inr (set_state en s depl,
                tx\<lparr>deployments :=
                     map (\<lambda>r. if depl_ID r = depl_ID depl then set_state en s r else r)
                         (deployments tx)\<rparr>),
      log (EvUpdateState (depl_ID depl) s) w)"

definition Update_active_deployment_id ::
  "env \<Rightarrow> database \<Rightarrow> nat \<Rightarrow> nat \<Rightarrow> world \<Rightarrow> (error + database) \<times> world" where
  "Update_active_deployment_id en tx pid did w =
     (if faulty en w then Inl ErrDB
      else Inr (tx\<lparr>projects :=
                     map (\<lambda>r. if proj_ID r = pid then r\<lparr>proj_ActiveDeploymentID := Some did\<rparr> else r)
                         (projects tx)\<rparr>),
      log (EvUpdateProject pid did) w)"


subsection \<open>The worker\<close>

text \<open>
  \<^verbatim>\<open>if err != nil { return err }\<close>: the first error ends the run, with the world as it
  is at that point.
\<close>

definition and_then ::
  "(error + 'a) \<times> world \<Rightarrow> ('a \<Rightarrow> world \<Rightarrow> (error + 'b) \<times> world) \<Rightarrow> (error + 'b) \<times> world" where
  "and_then m f = (case m of (Inl e, w) \<Rightarrow> (Inl e, w) | (Inr x, w) \<Rightarrow> f x w)"

definition gzip_NewReader :: "blob \<Rightarrow> error + tar_entry list \<times> bool" where
  "gzip_NewReader f = (case f of TarGz entries broken \<Rightarrow> Inr (entries, broken) | _ \<Rightarrow> Inl ErrGzip)"

text \<open>
  Lines 125 to 149, the loop over the tar stream: a directory is skipped, every other entry
  is uploaded under the webroot with public-read visibility.
\<close>

fun upload_files ::
  "env \<Rightarrow> string \<Rightarrow> tar_entry list \<Rightarrow> bool \<Rightarrow> world \<Rightarrow> (error + unit) \<times> world" where
  "upload_files en webroot [] broken w = (if broken then Inl ErrTar else Inr (), w)"
| "upload_files en webroot (hdr # rest) broken w =
     (if hdr_IsDir hdr then upload_files en webroot rest broken w
      else
        let fileName = path_Clean (hdr_Name hdr);
            remotePath = webroot @ ''/'' @ fileName;
            contentType = strip_params (mime_TypeByExtension en (filepath_Ext fileName))
        in and_then (S3_Upload en remotePath (Bytes (hdr_Data hdr)) contentType ''public-read'' w)
             (\<lambda>_. upload_files en webroot rest broken))"

text \<open>
  Lines 87 to 150, entered when the job does not skip the webroot upload. The scratch file
  is local to the run: creating it can fail, closing and removing it changes nothing of
  the world.
\<close>

definition bundle_path :: "DeployJobData \<Rightarrow> string \<Rightarrow> string" where
  "bundle_path d prefixID =
     (if UseRawBundle d then ''deployments/'' @ prefixID @ ''/raw-bundle.tar.gz''
      else ''deployments/'' @ prefixID @ ''/optimized-bundle.tar.gz'')"

definition webroot_stage ::
  "env \<Rightarrow> DeployJobData \<Rightarrow> Deployment \<Rightarrow> string \<Rightarrow> world \<Rightarrow> (error + unit) \<times> world" where
  "webroot_stage en d depl prefixID w =
     (if depl_State depl = StateDeployed then (Inl errUnexpectedState, w)
      else
        and_then (TempFile en (prefixID @ ''-optimized-bundle.tar.gz'') w) (\<lambda>_ w1.
        and_then (S3_Download en (bundle_path d prefixID) w1) (\<lambda>f w2.
        case gzip_NewReader f of
          Inl e \<Rightarrow> (Inl e, w2)
        | Inr (entries, broken) \<Rightarrow>
            upload_files en (''deployments/'' @ prefixID @ ''/webroot'') entries broken w2)))"

text \<open>Lines 157 to 163: the pointer document; \<^verbatim>\<open>force_https\<close> is omitted when false.\<close>

definition metaJson :: "string \<Rightarrow> bool \<Rightarrow> json" where
  "metaJson prefixID forceHTTPS =
     JObject ((''prefix'', JString prefixID) #
              (if forceHTTPS then [(''force_https'', JBool True)] else []))"

definition meta_key :: "string \<Rightarrow> string" where
  "meta_key domain = ''domains/'' @ domain @ ''/meta.json''"

definition meta_object :: "string \<Rightarrow> bool \<Rightarrow> s3object" where
  "meta_object prefixID forceHTTPS =
     \<lparr>obj_body = Json (metaJson prefixID forceHTTPS),
      obj_contentType = ''application/json'', obj_acl = ''public-read''\<rparr>"

text \<open>Lines 175 to 180: one upload of the pointer document for each domain name.\<close>

fun upload_meta ::
  "env \<Rightarrow> json \<Rightarrow> string list \<Rightarrow> world \<Rightarrow> (error + unit) \<times> world" where
  "upload_meta en doc [] w = (Inr (), w)"
| "upload_meta en doc (domain # rest) w =
     and_then (S3_Upload en (meta_key domain) (Json doc) ''application/json'' ''public-read'' w)
       (\<lambda>_. upload_meta en doc rest)"

text \<open>
  Modelled from the spec: \<^verbatim>\<open>messages.V1InvalidationMessageData\<close> and
  \<^verbatim>\<open>pubsub.NewMessageWithJSON\<close>. The broadcast is the document
  \<^verbatim>\<open>{"domains": [...]}\<close>, sent to an exchange with a routing key.
\<close>

definition NewMessageWithJSON :: "string \<Rightarrow> string \<Rightarrow> string list \<Rightarrow> message" where
  "NewMessageWithJSON ex rt domainNames =
     \<lparr>msg_exchange = ex, msg_route = rt,
      msg_body = JObject [(''domains'', JArray (map JString domainNames))]\<rparr>"

text \<open>Lines 182 to 193.\<close>

definition invalidate ::
  "env \<Rightarrow> DeployJobData \<Rightarrow> string list \<Rightarrow> world \<Rightarrow> (error + unit) \<times> world" where
  "invalidate en d domainNames w =
     (if \<not> SkipInvalidation d
      then Publish en (NewMessageWithJSON (Edges en) (RouteV1Invalidation en) domainNames) w
      else (Inr (), w))"

text \<open>
  Lines 213 to 233: the analytics event. A user that cannot be read and an event that
  cannot be sent change nothing of the result. \<^verbatim>\<open>depl.DeployedAt\<close> is a pointer that
  line 218 dereferences.
\<close>

definition track_props :: "Deployment \<Rightarrow> Project \<Rightarrow> int \<Rightarrow> json" where
  "track_props depl proj deployedAt =
     JObject [(''projectName'', JString (proj_Name proj)),
              (''deploymentId'', JNum (int (depl_ID depl))),
              (''deploymentPrefix'', JString (depl_Prefix depl)),
              (''deploymentVersion'', JNum (int (depl_Version depl))),
              (''timeTakenInSeconds'', JNum (deployedAt - depl_CreatedAt depl))]"

definition track_deploy ::
  "env \<Rightarrow> Deployment \<Rightarrow> Project \<Rightarrow> world \<Rightarrow> (error + unit) \<times> world" where
  "track_deploy en depl proj w =
     (case First_User en (depl_UserID depl) w of
        (Inl e, w1) \<Rightarrow> (Inr (), w1)
      | (Inr u, w1) \<Rightarrow>
          (case depl_DeployedAt depl of
             None \<Rightarrow> (Inl PanicNilDeref, w1)
           | Some t \<Rightarrow>
               (Inr (), snd (Track en (string_of_nat (user_ID u)) ''Project Deployed''
                                (track_props depl proj t) w1))))"

text \<open>Lines 201 to 233, inside the transaction.\<close>

definition activate ::
  "env \<Rightarrow> database \<Rightarrow> Deployment \<Rightarrow> Project \<Rightarrow> world \<Rightarrow> (error + unit) \<times> world" where
  "activate en tx depl proj w =
     and_then (UpdateState en depl tx StateDeployed w) (\<lambda>(depl', tx1) w1.
     and_then (Update_active_deployment_id en tx1 (proj_ID proj) (depl_ID depl') w1) (\<lambda>tx2 w2.
     and_then (tx_Commit en tx2 w2) (\<lambda>_ w3.
     track_deploy en depl' proj w3)))"

text \<open>Lines 195 to 236: the transaction with its deferred rollback.\<close>

definition transaction ::
  "env \<Rightarrow> Deployment \<Rightarrow> Project \<Rightarrow> world \<Rightarrow> (error + unit) \<times> world" where
  "transaction en depl proj w =
     and_then (db_Begin en w) (\<lambda>tx w1.
     case activate en tx depl proj w1 of (r, w2) \<Rightarrow> (r, tx_Rollback w2))"

text \<open>
  Lines 152 to 193, then the transaction: the lock check, the pointer documents and the
  broadcast.
\<close>

definition publish_stage ::
  "env \<Rightarrow> DeployJobData \<Rightarrow> Deployment \<Rightarrow> Project \<Rightarrow> string \<Rightarrow> world \<Rightarrow> (error + unit) \<times> world" where
  "publish_stage en d depl proj prefixID w =
     (if proj_LockedAt proj \<noteq> None then (Inl ErrProjectLocked, w)
      else
        and_then (DomainNames en proj w) (\<lambda>domainNames w1.
        and_then (upload_meta en (metaJson prefixID (proj_ForceHTTPS proj)) domainNames w1) (\<lambda>_ w2.
        and_then (invalidate en d domainNames w2) (\<lambda>_ w3.
        transaction en depl proj w3))))"

text \<open>Lines 58 to 236.\<close>

definition Work :: "env \<Rightarrow> payload \<Rightarrow> world \<Rightarrow> (error + unit) \<times> world" where
  "Work en data w =
     (case json_Unmarshal data of
        Inl e \<Rightarrow> (Inl e, w)
      | Inr d \<Rightarrow>
          and_then (dbconn_DB en w) (\<lambda>_ w1.
          and_then (First_Deployment en (DeploymentID d) w1) (\<lambda>depl w2.
          if depl_State depl = StateUploaded \<or> depl_State depl = StatePendingUpload
          then (Inl errUnexpectedState, w2)
          else
            let prefixID = PrefixID depl in
            and_then (First_Project en (depl_ProjectID depl) w2) (\<lambda>proj w3.
            and_then (if \<not> SkipWebrootUpload d then webroot_stage en d depl prefixID w3
                      else (Inr (), w3)) (\<lambda>_ w4.
            publish_stage en d depl proj prefixID w4)))))"

subsection \<open>Observing a run\<close>

text \<open>
  The events a run added to the trace, the messages the broker accepted among them, and the
  bucket after the successful uploads among them.
\<close>

definition new_events :: "world \<Rightarrow> world \<Rightarrow> event list" where
  "new_events w w' = drop (length (trace w)) (trace w')"

fun published :: "event list \<Rightarrow> message list" where
  "published [] = []"
| "published (e # evs) =
     (case e of EvPublish m ok \<Rightarrow> if ok then m # published evs else published evs
              | _ \<Rightarrow> published evs)"

fun replay :: "event list \<Rightarrow> (string \<rightharpoonup> s3object) \<Rightarrow> (string \<rightharpoonup> s3object)" where
  "replay [] b = b"
| "replay (e # evs) b =
     (case e of EvUpload k ob ok \<Rightarrow> if ok then replay evs (b(k \<mapsto> ob)) else replay evs b
              | _ \<Rightarrow> replay evs b)"

text \<open>
  A run from \<open>w\<close> to \<open>w'\<close> with the events \<open>evs\<close>: the trace, the clock, the broker
  and the bucket of \<open>w'\<close> are those of \<open>w\<close> after the events.
\<close>

definition run :: "world \<Rightarrow> event list \<Rightarrow> world \<Rightarrow> bool" where
  "run w evs w' \<longleftrightarrow>
     trace w' = trace w @ evs \<and> clock w' = clock w + length evs \<and>
     mq w' = mq w @ published evs \<and> bucket w' = replay evs (bucket w)"

text \<open>The upload the loop makes for one entry of the archive that is not a directory.\<close>

definition file_key :: "string \<Rightarrow> tar_entry \<Rightarrow> string" where
  "file_key webroot hdr = webroot @ ''/'' @ path_Clean (hdr_Name hdr)"

definition file_object :: "env \<Rightarrow> tar_entry \<Rightarrow> s3object" where
  "file_object en hdr =
     \<lparr>obj_body = Bytes (hdr_Data hdr),
      obj_contentType =
        strip_params (mime_TypeByExtension en (filepath_Ext (path_Clean (hdr_Name hdr)))),
      obj_acl = ''public-read''\<rparr>"

definition file_upload :: "env \<Rightarrow> string \<Rightarrow> tar_entry \<Rightarrow> string \<times> s3object" where
  "file_upload en webroot h = (file_key webroot h, file_object en h)"

definition regular_files :: "tar_entry list \<Rightarrow> tar_entry list" where
  "regular_files es = filter (\<lambda>h. \<not> hdr_IsDir h) es"

definition webroot_of :: "string \<Rightarrow> string" where
  "webroot_of prefixID = ''deployments/'' @ prefixID @ ''/webroot''"

definition webroot_events :: "env \<Rightarrow> string \<Rightarrow> tar_entry list \<Rightarrow> event list" where
  "webroot_events en prefixID es =
     map (\<lambda>h. EvUpload (file_key (webroot_of prefixID) h) (file_object en h) True)
         (regular_files es)"

definition json_object :: "json \<Rightarrow> s3object" where
  "json_object doc =
     \<lparr>obj_body = Json doc, obj_contentType = ''application/json'', obj_acl = ''public-read''\<rparr>"

text \<open>
  An upload is a webroot upload when its key lies under \<^verbatim>\<open>deployments/\<close> and a
  pointer-document upload when its key lies under \<^verbatim>\<open>domains/\<close>.
\<close>

definition is_webroot_upload :: "event \<Rightarrow> bool" where
  "is_webroot_upload e \<longleftrightarrow> is_upload e \<and> take 12 (up_key e) = ''deployments/''"

definition is_pointer_upload :: "event \<Rightarrow> bool" where
  "is_pointer_upload e \<longleftrightarrow> is_upload e \<and> take 8 (up_key e) = ''domains/''"

text \<open>An event that neither reads the deployment nor touches the store or the broker.\<close>

definition quiet :: "event \<Rightarrow> bool" where
  "quiet e \<longleftrightarrow> \<not> is_upload e \<and> \<not> is_publish e \<and> \<not> is_read_deployment e \<and> \<not> is_download e"

text \<open>
  The database after the activation of a deployment of a project: the state and
  \<^verbatim>\<open>deployed_at\<close> of the deployment's row, the \<^verbatim>\<open>active_deployment_id\<close> of the
  project's row.
\<close>

definition activated :: "env \<Rightarrow> Deployment \<Rightarrow> Project \<Rightarrow> database \<Rightarrow> database" where
  "activated en depl proj d =
     d\<lparr>deployments :=
         map (\<lambda>x. if depl_ID x = depl_ID depl then set_state en StateDeployed x else x)
             (deployments d),
       projects :=
         map (\<lambda>x. if proj_ID x = proj_ID proj
                   then x\<lparr>proj_ActiveDeploymentID := Some (depl_ID depl)\<rparr> else x)
             (projects d)\<rparr>"

text \<open>The three reads every run starts with, and the pointer uploads of a complete publish.\<close>

definition prologue :: "DeployJobData \<Rightarrow> Deployment \<Rightarrow> event list" where
  "prologue d depl =
     [EvDBConn, EvFirstDeployment (DeploymentID d), EvFirstProject (depl_ProjectID depl)]"

definition pointer_events :: "env \<Rightarrow> database \<Rightarrow> Project \<Rightarrow> string \<Rightarrow> event list" where
  "pointer_events en d proj p =
     map (\<lambda>dn. EvUpload (meta_key dn) (meta_object p (proj_ForceHTTPS proj)) True)
         (bound_names en d proj)"

text \<open>
  What holds of the events of the publish stage: an upload writes the pointer document of
  the deployment to the key of a bound domain name; a broadcast is made only when the job
  asks for it, carries the bound names, and comes after the pointer document of each of
  them has been written.
\<close>

definition publish_shape ::
  "env \<Rightarrow> DeployJobData \<Rightarrow> database \<Rightarrow> Project \<Rightarrow> string \<Rightarrow> event list \<Rightarrow> bool" where
  "publish_shape en d dbase proj p evs \<longleftrightarrow>
     (\<forall>e\<in>set evs. \<not> is_read_deployment e \<and> \<not> is_download e \<and>
        (is_upload e \<longrightarrow> up_object e = meta_object p (proj_ForceHTTPS proj) \<and>
                          up_key e \<in> meta_key ` set (bound_names en dbase proj)) \<and>
        (is_publish e \<longrightarrow> \<not> SkipInvalidation d \<and>
           pub_message e =
             NewMessageWithJSON (Edges en) (RouteV1Invalidation en) (bound_names en dbase proj) \<and>
           filter is_pointer_upload evs = pointer_events en dbase proj p))"

text \<open>
  The guard the specification describes for a step at position \<open>i\<close> of the events: the
  deployment has been read before the step, and no upload or broadcast lies between the
  last such read and the step.
\<close>

definition state_reread_before :: "event list \<Rightarrow> nat \<Rightarrow> bool" where
  "state_reread_before evs i \<longleftrightarrow>
     (let since = takeWhile (\<lambda>e. \<not> is_read_deployment e) (rev (take i evs))
      in length since < length (take i evs) \<and>
         filter (\<lambda>e. is_upload e \<or> is_publish e) since = [])"

subsection \<open>The scenarios of the specification\<close>

text \<open>
  Scenario A: deployment 42 with prefix \<^verbatim>\<open>ab12\<close>, waiting to be deployed, of the unlocked
  project \<^verbatim>\<open>foo\<close> with no explicit domains; the raw bundle holds a directory and the file
  \<^verbatim>\<open>index.html\<close>; nothing fails. Scenario B locks the project, scenario C leaves the
  deployment in state \<^verbatim>\<open>uploaded\<close>.
\<close>

definition env_A :: env where
  "env_A =
     \<lparr>faults = (\<lambda>_. False), now = 1000,
      mime_types = (\<lambda>e. if e = ''.html'' then ''text/html; charset=utf-8'' else []),
      DefaultDomain = ''rise.cloud'', Edges = ''edges'',
      RouteV1Invalidation = ''v1.invalidation''\<rparr>"

definition depl_A :: Deployment where
  "depl_A =
     \<lparr>depl_ID = 42, depl_ProjectID = 7, depl_UserID = 3, depl_Prefix = ''ab12'',
      depl_Version = 1, depl_State = StatePendingDeploy, depl_CreatedAt = 900,
      depl_DeployedAt = None\<rparr>"

definition proj_A :: Project where
  "proj_A =
     \<lparr>proj_ID = 7, proj_Name = ''foo'', proj_ForceHTTPS = False, proj_LockedAt = None,
      proj_ActiveDeploymentID = None\<rparr>"

definition bundle_A :: s3object where
  "bundle_A =
     \<lparr>obj_body =
        TarGz [\<lparr>hdr_Name = ''./'', hdr_IsDir = True, hdr_Data = []\<rparr>,
               \<lparr>hdr_Name = ''./index.html'', hdr_IsDir = False, hdr_Data = ''<html></html>''\<rparr>]
              False,
      obj_contentType = ''application/gzip'', obj_acl = ''private''\<rparr>"

definition db_A :: database where
  "db_A =
     \<lparr>deployments = [depl_A], projects = [proj_A], domains = [],
      users = [\<lparr>user_ID = 3, user_Email = ''dev@example.com''\<rparr>]\<rparr>"

definition world_A :: world where
  "world_A =
     \<lparr>db = db_A,
      bucket = [''deployments/ab12-42/raw-bundle.tar.gz'' \<mapsto> bundle_A],
      mq = [], trace = [], clock = 0\<rparr>"

definition job_A :: DeployJobData where
  "job_A =
     \<lparr>DeploymentID = 42, SkipWebrootUpload = False, SkipInvalidation = False,
      UseRawBundle = True\<rparr>"

definition world_B :: world where
  "world_B = world_A\<lparr>db := db_A\<lparr>projects := [proj_A\<lparr>proj_LockedAt := Some 950\<rparr>]\<rparr>\<rparr>"

definition world_C :: world where
  "world_C = world_A\<lparr>db := db_A\<lparr>deployments := [depl_A\<lparr>depl_State := StateUploaded\<rparr>]\<rparr>\<rparr>"

text \<open>A job that skips both the webroot upload and the invalidation.\<close>

definition job_S :: DeployJobData where
  "job_S = job_A\<lparr>SkipWebrootUpload := True, SkipInvalidation := True\<rparr>"

text \<open>
  Surroundings in which the commit fails (the thirteenth external call of scenario A), and
  a world in which the project has a second domain, with surroundings in which the upload
  of that domain's pointer document fails (the ninth call).
\<close>

definition env_commit_fails :: env where
  "env_commit_fails = env_A\<lparr>faults := (\<lambda>n. n = 12)\<rparr>"

definition world_D :: world where
  "world_D =
     world_A\<lparr>db := db_A\<lparr>domains :=
       [\<lparr>dom_ID = 1, dom_ProjectID = 7, dom_Name = ''www.foo.com''\<rparr>]\<rparr>\<rparr>"

definition env_second_pointer_fails :: env where
  "env_second_pointer_fails = env_A\<lparr>faults := (\<lambda>n. n = 8)\<rparr>"

subsection \<open>Composing runs\<close>

lemma and_thenE:
  assumes "and_then m f = (r, w')"
  obtains (fail) e where "m = (Inl e, w')" and "r = Inl e"
        | (ok) x w1 where "m = (Inr x, w1)" and "f x w1 = (r, w')"
  using assms by (auto simp: and_then_def split: prod.splits sum.splits)

lemma published_append: "published (xs @ ys) = published xs @ published ys"
  by (induction xs) (auto split: event.splits)

lemma replay_append: "replay (xs @ ys) b = replay ys (replay xs b)"
  by (induction xs arbitrary: b) (auto split: event.splits)

lemma run_refl: "run w [] w"
  by (simp add: run_def)

lemma run_trans: "run w xs w1 \<Longrightarrow> run w1 ys w' \<Longrightarrow> run w (xs @ ys) w'"
  by (simp add: run_def published_append replay_append)

lemma run_new_events: "run w evs w' \<Longrightarrow> new_events w w' = evs"
  by (simp add: run_def new_events_def)

lemmas call_defs =
  dbconn_DB_def First_Deployment_def First_Project_def First_User_def TempFile_def
  S3_Download_def S3_Upload_def Publish_def Track_def DomainNames_def db_Begin_def
  tx_Commit_def tx_Rollback_def UpdateState_def Update_active_deployment_id_def
  log_def faulty_def

lemma dbconn_DB_run:
  "dbconn_DB en w = (r, w') \<Longrightarrow>
     run w [EvDBConn] w' \<and> db w' = db w \<and>
     r = (if faults en (clock w) then Inl ErrDBConn else Inr ())"
  by (auto simp: call_defs run_def)

lemma First_Deployment_run:
  "First_Deployment en i w = (r, w') \<Longrightarrow>
     run w [EvFirstDeployment i] w' \<and> db w' = db w \<and>
     r = (if faults en (clock w) then Inl ErrDB
          else case find (\<lambda>x. depl_ID x = i) (deployments (db w)) of
                 None \<Rightarrow> Inl ErrRecordNotFound | Some x \<Rightarrow> Inr x)"
  by (auto simp: call_defs run_def)

lemma First_Project_run:
  "First_Project en i w = (r, w') \<Longrightarrow>
     run w [EvFirstProject i] w' \<and> db w' = db w \<and>
     r = (if faults en (clock w) then Inl ErrDB
          else case find (\<lambda>x. proj_ID x = i) (projects (db w)) of
                 None \<Rightarrow> Inl ErrRecordNotFound | Some x \<Rightarrow> Inr x)"
  by (auto simp: call_defs run_def)

lemma First_User_run:
  "First_User en i w = (r, w') \<Longrightarrow> run w [EvFirstUser i] w' \<and> db w' = db w"
  by (auto simp: call_defs run_def)

lemma TempFile_run:
  "TempFile en name w = (r, w') \<Longrightarrow>
     run w [EvTempFile name] w' \<and> db w' = db w \<and>
     r = (if faults en (clock w) then Inl ErrTempFile else Inr ())"
  by (auto simp: call_defs run_def)

lemma S3_Download_run:
  "S3_Download en key w = (r, w') \<Longrightarrow>
     run w [EvDownload key] w' \<and> db w' = db w \<and>
     r = (if faults en (clock w) then Inl ErrS3
          else case bucket w key of None \<Rightarrow> Inl ErrS3 | Some ob \<Rightarrow> Inr (obj_body ob))"
  by (auto simp: call_defs run_def)

lemma S3_Upload_run:
  "S3_Upload en key body ct acl w = (r, w') \<Longrightarrow>
     run w [EvUpload key \<lparr>obj_body = body, obj_contentType = ct, obj_acl = acl\<rparr> (r = Inr ())] w' \<and>
     db w' = db w \<and>
     r = (if faults en (clock w) then Inl ErrS3 else Inr ())"
  by (auto simp: call_defs run_def Let_def split: if_splits)

lemma Publish_run:
  "Publish en m w = (r, w') \<Longrightarrow>
     run w [EvPublish m (r = Inr ())] w' \<and> db w' = db w \<and>
     r = (if faults en (clock w) then Inl ErrMQ else Inr ())"
  by (auto simp: call_defs run_def split: if_splits)

lemma Track_run:
  "Track en uid ev props w = (r, w') \<Longrightarrow>
     run w [EvTrack uid ev props (r = Inr ())] w' \<and> db w' = db w"
  by (auto simp: call_defs run_def split: if_splits)

lemma DomainNames_run:
  "DomainNames en proj w = (r, w') \<Longrightarrow>
     run w [EvDomainNames (proj_ID proj)] w' \<and> db w' = db w \<and>
     r = (if faults en (clock w) then Inl ErrDB else Inr (bound_names en (db w) proj))"
  by (auto simp: call_defs run_def)

lemma db_Begin_run:
  "db_Begin en w = (r, w') \<Longrightarrow>
     run w [EvBegin] w' \<and> db w' = db w \<and>
     r = (if faults en (clock w) then Inl ErrDB else Inr (db w))"
  by (auto simp: call_defs run_def)

lemma UpdateState_run:
  "UpdateState en depl tx s w = (r, w') \<Longrightarrow>
     run w [EvUpdateState (depl_ID depl) s] w' \<and> db w' = db w \<and>
     r = (if faults en (clock w) then Inl ErrDB
          else Inr (set_state en s depl,
                    tx\<lparr>deployments :=
                         map (\<lambda>x. if depl_ID x = depl_ID depl then set_state en s x else x)
                             (deployments tx)\<rparr>))"
  by (auto simp: call_defs run_def)

lemma Update_active_deployment_id_run:
  "Update_active_deployment_id en tx pid did w = (r, w') \<Longrightarrow>
     run w [EvUpdateProject pid did] w' \<and> db w' = db w \<and>
     r = (if faults en (clock w) then Inl ErrDB
          else Inr (tx\<lparr>projects :=
                         map (\<lambda>x. if proj_ID x = pid then x\<lparr>proj_ActiveDeploymentID := Some did\<rparr> else x)
                             (projects tx)\<rparr>))"
  by (auto simp: call_defs run_def)

lemma tx_Commit_run:
  "tx_Commit en tx w = (r, w') \<Longrightarrow>
     run w [EvCommit] w' \<and>
     (if faults en (clock w) then r = Inl ErrDB \<and> db w' = db w else r = Inr () \<and> db w' = tx)"
  by (auto simp: call_defs run_def split: if_splits)

lemma tx_Rollback_run: "run w [EvRollback] (tx_Rollback w) \<and> db (tx_Rollback w) = db w"
  by (auto simp: call_defs run_def)

lemma published_Nil: "\<forall>e\<in>set evs. \<not> is_publish e \<Longrightarrow> published evs = []"
  by (induction evs) (auto split: event.splits)

lemma replay_id: "\<forall>e\<in>set evs. \<not> is_upload e \<Longrightarrow> replay evs b = b"
  by (induction evs arbitrary: b) (auto split: event.splits)

lemma upload_files_run:
  "upload_files en webroot es broken w = (r, w') \<Longrightarrow>
   \<exists>evs. run w evs w' \<and> db w' = db w \<and>
     (\<forall>e\<in>set evs. is_upload e \<and>
          (up_key e, up_object e) \<in> file_upload en webroot ` set (regular_files es)) \<and>
     (r = Inr () \<longrightarrow> \<not> broken \<and>
          evs = map (\<lambda>h. EvUpload (file_key webroot h) (file_object en h) True) (regular_files es)) \<and>
     (r = Inr () \<or> r = Inl ErrS3 \<or> r = Inl ErrTar)"
proof (induction es arbitrary: w)
  case Nil
  then have "run w [] w'"
    by (auto simp: run_refl split: if_splits)
  with Nil show ?case
    by (intro exI[of _ "[]"]) (auto simp: regular_files_def split: if_splits)
next
  case (Cons h es)
  show ?case
  proof (cases "hdr_IsDir h")
    case True
    with Cons.prems have "upload_files en webroot es broken w = (r, w')" by simp
    from Cons.IH[OF this] True show ?thesis by (simp add: regular_files_def)
  next
    case False
    let ?e = "\<lambda>ok. EvUpload (file_key webroot h) (file_object en h) ok"
    from False Cons.prems have
      "and_then (S3_Upload en (file_key webroot h) (Bytes (hdr_Data h))
          (obj_contentType (file_object en h)) ''public-read'' w)
        (\<lambda>_. upload_files en webroot es broken) = (r, w')"
      by (simp add: Let_def file_key_def file_object_def)
    then show ?thesis
    proof (cases rule: and_thenE)
      case (fail e)
      from S3_Upload_run[OF fail(1)] fail(2)
      have "run w [?e False] w'" and "db w' = db w" and "r = Inl ErrS3"
        by (auto simp: file_object_def split: if_splits)
      with False show ?thesis
        by (intro exI[of _ "[?e False]"]) (auto simp: regular_files_def file_upload_def)
    next
      case (ok x w1)
      from S3_Upload_run[OF ok(1)]
      have 1: "run w [?e True] w1" and 2: "db w1 = db w"
        by (auto simp: file_object_def split: if_splits)
      from Cons.IH[OF ok(2)] obtain evs where
        3: "run w1 evs w'" and 4: "db w' = db w1" and
        5: "\<forall>e\<in>set evs. is_upload e \<and>
              (up_key e, up_object e) \<in> file_upload en webroot ` set (regular_files es)" and
        6: "r = Inr () \<longrightarrow> \<not> broken \<and>
              evs = map (\<lambda>h. EvUpload (file_key webroot h) (file_object en h) True) (regular_files es)" and
        7: "r = Inr () \<or> r = Inl ErrS3 \<or> r = Inl ErrTar"
        by blast
      from run_trans[OF 1 3] have 8: "run w (?e True # evs) w'" by simp
      have 9: "regular_files (h # es) = h # regular_files es"
        using False by (simp add: regular_files_def)
      have "\<forall>e\<in>set (?e True # evs). is_upload e \<and>
              (up_key e, up_object e) \<in> file_upload en webroot ` set (regular_files (h # es))"
        using 5 unfolding 9 by (auto simp: file_upload_def)
      moreover have "r = Inr () \<longrightarrow> \<not> broken \<and> ?e True # evs =
           map (\<lambda>h. EvUpload (file_key webroot h) (file_object en h) True) (regular_files (h # es))"
        using 6 unfolding 9 by simp
      ultimately show ?thesis using 8 2 4 7 by (intro exI[of _ "?e True # evs"]) simp
    qed
  qed
qed

lemma upload_meta_run:
  "upload_meta en doc ds w = (r, w') \<Longrightarrow>
   \<exists>evs. run w evs w' \<and> db w' = db w \<and>
     (\<forall>e\<in>set evs. is_upload e \<and> up_object e = json_object doc \<and> up_key e \<in> meta_key ` set ds) \<and>
     (r = Inr () \<longrightarrow> evs = map (\<lambda>dn. EvUpload (meta_key dn) (json_object doc) True) ds) \<and>
     (r = Inr () \<or> r = Inl ErrS3)"
proof (induction ds arbitrary: w)
  case Nil
  then show ?case
    by (intro exI[of _ "[]"]) (auto simp: run_refl)
next
  case (Cons dn ds)
  let ?e = "\<lambda>ok. EvUpload (meta_key dn) (json_object doc) ok"
  from Cons.prems have
    "and_then (S3_Upload en (meta_key dn) (Json doc) ''application/json'' ''public-read'' w)
        (\<lambda>_. upload_meta en doc ds) = (r, w')"
    by simp
  then show ?case
  proof (cases rule: and_thenE)
    case (fail e)
    from S3_Upload_run[OF fail(1)] fail(2)
    have "run w [?e False] w'" and "db w' = db w" and "r = Inl ErrS3"
      by (auto simp: json_object_def split: if_splits)
    then show ?thesis
      by (intro exI[of _ "[?e False]"]) auto
  next
    case (ok x w1)
    from S3_Upload_run[OF ok(1)]
    have 1: "run w [?e True] w1" and 2: "db w1 = db w"
      by (auto simp: json_object_def split: if_splits)
    from Cons.IH[OF ok(2)] obtain evs where
      3: "run w1 evs w'" and 4: "db w' = db w1" and
      5: "\<forall>e\<in>set evs. is_upload e \<and> up_object e = json_object doc \<and> up_key e \<in> meta_key ` set ds" and
      6: "r = Inr () \<longrightarrow> evs = map (\<lambda>dn. EvUpload (meta_key dn) (json_object doc) True) ds" and
      7: "r = Inr () \<or> r = Inl ErrS3"
      by blast
    from run_trans[OF 1 3] have 8: "run w (?e True # evs) w'" by simp
    have "\<forall>e\<in>set (?e True # evs). is_upload e \<and> up_object e = json_object doc \<and>
             up_key e \<in> meta_key ` set (dn # ds)"
      using 5 by auto
    moreover have "r = Inr () \<longrightarrow> ?e True # evs =
         map (\<lambda>dn. EvUpload (meta_key dn) (json_object doc) True) (dn # ds)"
      using 6 by simp
    ultimately show ?thesis using 8 2 4 7 by (intro exI[of _ "?e True # evs"]) simp
  qed
qed

lemma file_key_webroot: "take 12 (file_key (webroot_of p) h) = ''deployments/''"
  by (simp add: file_key_def webroot_of_def)

lemma meta_key_domains: "take 8 (meta_key dn) = ''domains/''"
  by (simp add: meta_key_def)

lemma pointer_not_webroot: "is_pointer_upload e \<Longrightarrow> \<not> is_webroot_upload e"
  by (cases "up_key e" rule: list.exhaust; cases "tl (up_key e)" rule: list.exhaust)
     (auto simp: is_pointer_upload_def is_webroot_upload_def)

lemma webroot_stage_run:
  assumes "webroot_stage en d depl p w = (r, w')"
  shows "\<exists>evs. run w evs w' \<and> db w' = db w \<and>
     (\<forall>e\<in>set evs. \<not> is_publish e \<and> \<not> is_read_deployment e \<and> (is_upload e \<longrightarrow> is_webroot_upload e)) \<and>
     (depl_State depl = StateDeployed \<longrightarrow> evs = [] \<and> r = Inl errUnexpectedState) \<and>
     (r = Inr () \<longrightarrow> depl_State depl \<noteq> StateDeployed \<and>
        (\<exists>ob es. bucket w (bundle_path d p) = Some ob \<and> obj_body ob = TarGz es False \<and>
           evs = EvTempFile (p @ ''-optimized-bundle.tar.gz'') # EvDownload (bundle_path d p) #
                 map (\<lambda>h. EvUpload (file_key (webroot_of p) h) (file_object en h) True)
                     (regular_files es))) \<and>
     (r \<in> {Inr (), Inl errUnexpectedState, Inl ErrTempFile, Inl ErrS3, Inl ErrGzip, Inl ErrTar}) \<and>
     (r = Inl errUnexpectedState \<longrightarrow> depl_State depl = StateDeployed)"
proof (cases "depl_State depl = StateDeployed")
  case True
  with assms have "r = Inl errUnexpectedState" and "w' = w"
    by (auto simp: webroot_stage_def)
  with True show ?thesis
    by (intro exI[of _ "[]"]) (simp add: run_refl)
next
  case False
  let ?t = "EvTempFile (p @ ''-optimized-bundle.tar.gz'')"
  let ?d = "EvDownload (bundle_path d p)"
  from False assms have
    "and_then (TempFile en (p @ ''-optimized-bundle.tar.gz'') w) (\<lambda>_ w1.
       and_then (S3_Download en (bundle_path d p) w1) (\<lambda>f w2.
         case gzip_NewReader f of
           Inl e \<Rightarrow> (Inl e, w2)
         | Inr (entries, broken) \<Rightarrow> upload_files en (webroot_of p) entries broken w2)) = (r, w')"
    unfolding webroot_stage_def webroot_of_def by simp
  then show ?thesis
  proof (cases rule: and_thenE)
    case (fail e)
    from TempFile_run[OF fail(1)] fail(2)
    have "run w [?t] w'" and "db w' = db w" and "r = Inl ErrTempFile"
      by (auto split: if_splits)
    with False show ?thesis
      by (intro exI[of _ "[?t]"]) simp
  next
    case (ok x w1)
    from TempFile_run[OF ok(1)] have 1: "run w [?t] w1" and 2: "db w1 = db w"
      by auto
    from 1 have b1: "bucket w1 = bucket w" by (simp add: run_def)
    from ok(2) show ?thesis
    proof (cases rule: and_thenE)
      case (fail e)
      from S3_Download_run[OF fail(1)] fail(2)
      have "run w1 [?d] w'" and 3: "db w' = db w1" and 4: "r = Inl ErrS3"
        by (auto split: if_splits option.splits)
      with run_trans[OF 1] have "run w [?t, ?d] w'" by fastforce
      with False 2 3 4 show ?thesis
        by (intro exI[of _ "[?t, ?d]"]) simp
    next
      case (ok f w2)
      from S3_Download_run[OF ok(1)] have 3: "run w1 [?d] w2" and 4: "db w2 = db w1"
        and 5: "\<exists>ob. bucket w1 (bundle_path d p) = Some ob \<and> obj_body ob = f"
        by (auto split: if_splits option.splits)
      from run_trans[OF 1 3] have 6: "run w [?t, ?d] w2" by simp
      show ?thesis
      proof (cases f)
        case (TarGz es broken)
        with ok(2) have "upload_files en (webroot_of p) es broken w2 = (r, w')"
          by (simp add: gzip_NewReader_def)
        from upload_files_run[OF this] obtain evs where
          7: "run w2 evs w'" and 8: "db w' = db w2" and
          9: "\<forall>e\<in>set evs. is_upload e \<and>
                (up_key e, up_object e) \<in> file_upload en (webroot_of p) ` set (regular_files es)" and
          10: "r = Inr () \<longrightarrow> \<not> broken \<and>
                evs = map (\<lambda>h. EvUpload (file_key (webroot_of p) h) (file_object en h) True)
                          (regular_files es)" and
          11: "r = Inr () \<or> r = Inl ErrS3 \<or> r = Inl ErrTar"
          by blast
        from run_trans[OF 6 7] have 12: "run w (?t # ?d # evs) w'" by simp
        from 9 have 13: "\<forall>e\<in>set evs. is_upload e \<and> is_webroot_upload e"
          by (auto simp: is_webroot_upload_def file_upload_def file_key_webroot)
        have 14: "\<forall>e\<in>set (?t # ?d # evs). \<not> is_publish e \<and> \<not> is_read_deployment e \<and>
                    (is_upload e \<longrightarrow> is_webroot_upload e)"
        proof
          fix e assume "e \<in> set (?t # ?d # evs)"
          then consider "e = ?t" | "e = ?d" | "e \<in> set evs" by auto
          then show "\<not> is_publish e \<and> \<not> is_read_deployment e \<and> (is_upload e \<longrightarrow> is_webroot_upload e)"
          proof cases
            case 3
            with 13 have "is_upload e" and "is_webroot_upload e" by auto
            then show ?thesis by (cases e) auto
          qed auto
        qed
        have 15: "r = Inr () \<longrightarrow>
           (\<exists>ob es. bucket w (bundle_path d p) = Some ob \<and> obj_body ob = TarGz es False \<and>
              ?t # ?d # evs = ?t # ?d #
                 map (\<lambda>h. EvUpload (file_key (webroot_of p) h) (file_object en h) True)
                     (regular_files es))"
          using 5 10 TarGz b1 by auto
        from 11 have 16: "r \<in> {Inr (), Inl errUnexpectedState, Inl ErrTempFile, Inl ErrS3, Inl ErrGzip, Inl ErrTar}"
          and 17: "r \<noteq> Inl errUnexpectedState" by auto
        show ?thesis
          using 12 14 15 16 17 False 2 4 8 by (intro exI[of _ "?t # ?d # evs"]) simp
      next
        case (Bytes x)
        with ok(2) have "r = Inl ErrGzip" and "w' = w2" by (auto simp: gzip_NewReader_def)
        with 6 False 2 4 show ?thesis
          by (intro exI[of _ "[?t, ?d]"]) simp
      next
        case (Json x)
        with ok(2) have "r = Inl ErrGzip" and "w' = w2" by (auto simp: gzip_NewReader_def)
        with 6 False 2 4 show ?thesis
          by (intro exI[of _ "[?t, ?d]"]) simp
      qed
    qed
  qed
qed

lemma invalidate_run:
  "invalidate en d names w = (r, w') \<Longrightarrow>
     run w (new_events w w') w' \<and> db w' = db w \<and>
     (SkipInvalidation d \<longrightarrow> new_events w w' = [] \<and> r = Inr ()) \<and>
     (\<not> SkipInvalidation d \<longrightarrow>
        new_events w w' =
          [EvPublish (NewMessageWithJSON (Edges en) (RouteV1Invalidation en) names) (r = Inr ())]) \<and>
     (r = Inr () \<or> r = Inl ErrMQ)"
  by (auto simp: invalidate_def call_defs run_def new_events_def split: if_splits)

lemma track_deploy_run:
  assumes "track_deploy en depl proj w = (r, w')"
  shows "run w (new_events w w') w' \<and> db w' = db w \<and>
     (\<forall>e\<in>set (new_events w w'). quiet e) \<and>
     (depl_DeployedAt depl \<noteq> None \<longrightarrow> r = Inr ())"
proof -
  let ?f = "EvFirstUser (depl_UserID depl)"
  obtain r1 w1 where f: "First_User en (depl_UserID depl) w = (r1, w1)"
    by (cases "First_User en (depl_UserID depl) w")
  from First_User_run[OF f] have 1: "run w [?f] w1" and 2: "db w1 = db w"
    by auto
  show ?thesis
  proof (cases r1)
    case (Inl e)
    with assms f have "r = Inr ()" and "w' = w1"
      by (auto simp: track_deploy_def)
    with 1 2 show ?thesis by (auto simp: run_new_events quiet_def)
  next
    case (Inr u)
    show ?thesis
    proof (cases "depl_DeployedAt depl")
      case None
      with assms f Inr have "w' = w1"
        by (auto simp: track_deploy_def)
      with 1 2 None show ?thesis by (auto simp: run_new_events quiet_def)
    next
      case (Some t)
      obtain r2 w2 where
        t: "Track en (string_of_nat (user_ID u)) ''Project Deployed'' (track_props depl proj t) w1
              = (r2, w2)"
        by (cases "Track en (string_of_nat (user_ID u)) ''Project Deployed''
                     (track_props depl proj t) w1")
      with assms f Inr Some have 3: "r = Inr ()" and 4: "w' = w2"
        by (auto simp: track_deploy_def)
      let ?t = "EvTrack (string_of_nat (user_ID u)) ''Project Deployed''
                  (track_props depl proj t) (r2 = Inr ())"
      from Track_run[OF t] have 5: "run w1 [?t] w2" and 6: "db w2 = db w1"
        by auto
      from run_trans[OF 1 5] have "run w [?f, ?t] w2" by simp
      with 2 3 4 6 show ?thesis by (auto simp: run_new_events quiet_def)
    qed
  qed
qed

lemma run_compose:
  assumes "run w (new_events w w1) w1" and "run w1 (new_events w1 w') w'"
  shows "run w (new_events w w') w' \<and> new_events w w' = new_events w w1 @ new_events w1 w'"
proof -
  from run_trans[OF assms] have "run w (new_events w w1 @ new_events w1 w') w'" .
  then show ?thesis by (simp add: run_new_events)
qed

lemma run_newI: "run w evs w' \<Longrightarrow> run w (new_events w w') w'"
  by (simp add: run_new_events)

lemma set_state_ID [simp]: "depl_ID (set_state en s x) = depl_ID x"
  by (simp add: set_state_def)

lemma activate_run:
  assumes "activate en tx depl proj w = (r, w')"
  shows "run w (new_events w w') w' \<and>
     (\<forall>e\<in>set (new_events w w'). quiet e) \<and>
     (if r = Inr () then db w' = activated en depl proj tx else db w' = db w) \<and>
     (r = Inr () \<or> r = Inl ErrDB)"
proof -
  let ?u = "EvUpdateState (depl_ID depl) StateDeployed"
  let ?p = "EvUpdateProject (proj_ID proj) (depl_ID depl)"
  from assms have
    "and_then (UpdateState en depl tx StateDeployed w) (\<lambda>(depl', tx1) w1.
     and_then (Update_active_deployment_id en tx1 (proj_ID proj) (depl_ID depl') w1) (\<lambda>tx2 w2.
     and_then (tx_Commit en tx2 w2) (\<lambda>_ w3.
     track_deploy en depl' proj w3))) = (r, w')"
    by (simp add: activate_def)
  then show ?thesis
  proof (cases rule: and_thenE)
    case (fail e)
    from UpdateState_run[OF fail(1)] fail(2)
    have "run w [?u] w'" and "db w' = db w" and "r = Inl ErrDB"
      by (auto split: if_splits)
    then show ?thesis by (auto simp: run_new_events quiet_def)
  next
    case (ok x w1)
    obtain depl' tx1 where x: "x = (depl', tx1)" by (cases x)
    from UpdateState_run[OF ok(1)] x
    have 1: "run w [?u] w1" and 2: "db w1 = db w"
      and 3: "depl' = set_state en StateDeployed depl"
      and 4: "tx1 = tx\<lparr>deployments :=
                 map (\<lambda>x. if depl_ID x = depl_ID depl then set_state en StateDeployed x else x)
                     (deployments tx)\<rparr>"
      by (auto split: if_splits)
    from 3 have 5: "depl_ID depl' = depl_ID depl" and 6: "depl_DeployedAt depl' \<noteq> None"
      by (simp_all add: set_state_def)
    from ok(2) x 5 have
      "and_then (Update_active_deployment_id en tx1 (proj_ID proj) (depl_ID depl) w1) (\<lambda>tx2 w2.
       and_then (tx_Commit en tx2 w2) (\<lambda>_ w3. track_deploy en depl' proj w3)) = (r, w')"
      by simp
    then show ?thesis
    proof (cases rule: and_thenE)
      case (fail e)
      from Update_active_deployment_id_run[OF fail(1)] fail(2)
      have "run w1 [?p] w'" and 7: "db w' = db w1" and 8: "r = Inl ErrDB"
        by (auto split: if_splits)
      with run_trans[OF 1] have "run w [?u, ?p] w'" by fastforce
      with 2 7 8 show ?thesis by (auto simp: run_new_events quiet_def)
    next
      case (ok tx2 w2)
      from Update_active_deployment_id_run[OF ok(1)]
      have 7: "run w1 [?p] w2" and 8: "db w2 = db w1"
        and 9: "tx2 = activated en depl proj tx"
        by (auto simp: 4 activated_def split: if_splits)
      from run_trans[OF 1 7] have 10: "run w [?u, ?p] w2" by simp
      from ok(2) show ?thesis
      proof (cases rule: and_thenE)
        case (fail e)
        from tx_Commit_run[OF fail(1)] fail(2)
        have "run w2 [EvCommit] w'" and 11: "db w' = db w2" and 12: "r = Inl ErrDB"
          by (auto split: if_splits)
        with run_trans[OF 10] have "run w [?u, ?p, EvCommit] w'" by fastforce
        with 2 8 11 12 show ?thesis by (auto simp: run_new_events quiet_def)
      next
        case (ok y w3)
        from tx_Commit_run[OF ok(1)]
        have 11: "run w2 [EvCommit] w3" and 12: "db w3 = tx2"
          by (auto split: if_splits)
        from run_trans[OF 10 11] have 13: "run w [?u, ?p, EvCommit] w3" by simp
        from track_deploy_run[OF ok(2)] 6
        have 14: "run w3 (new_events w3 w') w'" and 15: "db w' = db w3"
          and 16: "\<forall>e\<in>set (new_events w3 w'). quiet e" and 17: "r = Inr ()"
          by auto
        from run_trans[OF 13 14]
        have t: "run w ([?u, ?p, EvCommit] @ new_events w3 w') w'" .
        from run_newI[OF t] run_new_events[OF t]
        have "run w (new_events w w') w'"
          and "new_events w w' = [?u, ?p, EvCommit] @ new_events w3 w'"
          by blast+
        with 16 17 15 12 9 show ?thesis by (auto simp: quiet_def)
      qed
    qed
  qed
qed

lemma transaction_run:
  assumes "transaction en depl proj w = (r, w')"
  shows "run w (new_events w w') w' \<and>
     (\<forall>e\<in>set (new_events w w'). quiet e) \<and>
     (if r = Inr () then db w' = activated en depl proj (db w) else db w' = db w) \<and>
     (r = Inr () \<or> r = Inl ErrDB)"
proof -
  from assms have
    "and_then (db_Begin en w) (\<lambda>tx w1.
       case activate en tx depl proj w1 of (r, w2) \<Rightarrow> (r, tx_Rollback w2)) = (r, w')"
    by (simp add: transaction_def)
  then show ?thesis
  proof (cases rule: and_thenE)
    case (fail e)
    from db_Begin_run[OF fail(1)] fail(2)
    have "run w [EvBegin] w'" and "db w' = db w" and "r = Inl ErrDB"
      by (auto split: if_splits)
    then show ?thesis by (auto simp: run_new_events quiet_def)
  next
    case (ok tx w1)
    from db_Begin_run[OF ok(1)]
    have 1: "run w [EvBegin] w1" and 2: "db w1 = db w" and 3: "tx = db w"
      by (auto split: if_splits)
    obtain r2 w2 where a: "activate en tx depl proj w1 = (r2, w2)"
      by (cases "activate en tx depl proj w1")
    with ok(2) have 4: "r = r2" and 5: "w' = tx_Rollback w2" by auto
    from activate_run[OF a]
    have 6: "run w1 (new_events w1 w2) w2" and 7: "\<forall>e\<in>set (new_events w1 w2). quiet e"
      and 8: "if r2 = Inr () then db w2 = activated en depl proj tx else db w2 = db w1"
      and 9: "r2 = Inr () \<or> r2 = Inl ErrDB"
      by auto
    from tx_Rollback_run[of w2] 5
    have 10: "run w2 [EvRollback] w'" and 11: "db w' = db w2" by auto
    from run_trans[OF run_trans[OF 1 6] 10]
    have 12: "run w ([EvBegin] @ new_events w1 w2 @ [EvRollback]) w'" by simp
    from run_new_events[OF 12] run_newI[OF 12] 7 8 9 4 2 3 11
    show ?thesis by (auto simp: quiet_def)
  qed
qed

lemma meta_object_json: "meta_object p f = json_object (metaJson p f)"
  by (simp add: meta_object_def json_object_def)

lemma filter_pointer_map:
  "filter is_pointer_upload (map (\<lambda>dn. EvUpload (meta_key dn) ob True) ds) =
     map (\<lambda>dn. EvUpload (meta_key dn) ob True) ds"
  by (induction ds) (simp_all add: is_pointer_upload_def meta_key_domains)

lemma filter_pointer_none: "\<forall>e\<in>set xs. \<not> is_upload e \<Longrightarrow> filter is_pointer_upload xs = []"
  by (induction xs) (simp_all add: is_pointer_upload_def)

lemma publish_shape_quiet:
  "\<forall>e\<in>set evs. quiet e \<Longrightarrow> publish_shape en d dbase proj p evs"
  by (auto simp: publish_shape_def quiet_def)

lemma publish_shape_uploads:
  assumes "\<forall>e\<in>set evs. is_upload e \<and> up_object e = meta_object p (proj_ForceHTTPS proj) \<and>
             up_key e \<in> meta_key ` set (bound_names en dbase proj)"
    and "\<forall>e\<in>set pre. quiet e"
  shows "publish_shape en d dbase proj p (pre @ evs)"
proof -
  have "\<not> is_publish e" if "e \<in> set (pre @ evs)" for e
  proof -
    from that consider "e \<in> set pre" | "e \<in> set evs" by auto
    then show ?thesis
    proof cases
      case 1 with assms(2) show ?thesis by (simp add: quiet_def)
    next
      case 2 with assms(1) have "is_upload e" by simp
      then show ?thesis by (cases e) auto
    qed
  qed
  moreover have "\<not> is_read_deployment e \<and> \<not> is_download e" if "e \<in> set (pre @ evs)" for e
  proof -
    from that consider "e \<in> set pre" | "e \<in> set evs" by auto
    then show ?thesis
    proof cases
      case 1 with assms(2) show ?thesis by (simp add: quiet_def)
    next
      case 2 with assms(1) have "is_upload e" by simp
      then show ?thesis by (cases e) auto
    qed
  qed
  moreover have "up_object e = meta_object p (proj_ForceHTTPS proj) \<and>
                 up_key e \<in> meta_key ` set (bound_names en dbase proj)"
    if "e \<in> set (pre @ evs)" and "is_upload e" for e
    using that assms by (auto simp: quiet_def)
  ultimately show ?thesis
    unfolding publish_shape_def by blast
qed

lemma publish_shape_full:
  assumes "\<forall>e\<in>set post. quiet e"
    and "mid = [] \<or>
         (\<not> SkipInvalidation d \<and>
          mid = [EvPublish (NewMessageWithJSON (Edges en) (RouteV1Invalidation en)
                              (bound_names en dbase proj)) ok])"
  shows "publish_shape en d dbase proj p
           (EvDomainNames i # pointer_events en dbase proj p @ mid @ post)"
proof -
  let ?evs = "EvDomainNames i # pointer_events en dbase proj p @ mid @ post"
  from assms(1) have q: "filter is_pointer_upload post = []"
    by (intro filter_pointer_none) (simp add: quiet_def)
  from assms(2) have m: "filter is_pointer_upload mid = []"
    by (auto simp: is_pointer_upload_def)
  have f: "filter is_pointer_upload ?evs = pointer_events en dbase proj p"
    using q m by (simp add: pointer_events_def filter_pointer_map is_pointer_upload_def)
  have "\<not> is_read_deployment e \<and> \<not> is_download e \<and>
        (is_upload e \<longrightarrow> up_object e = meta_object p (proj_ForceHTTPS proj) \<and>
                          up_key e \<in> meta_key ` set (bound_names en dbase proj)) \<and>
        (is_publish e \<longrightarrow> \<not> SkipInvalidation d \<and>
           pub_message e =
             NewMessageWithJSON (Edges en) (RouteV1Invalidation en) (bound_names en dbase proj))"
    if "e \<in> set ?evs" for e
  proof -
    from that consider "e = EvDomainNames i" | "e \<in> set (pointer_events en dbase proj p)"
      | "e \<in> set mid" | "e \<in> set post" by auto
    then show ?thesis
    proof cases
      case 1 then show ?thesis by simp
    next
      case 2 then show ?thesis by (auto simp: pointer_events_def)
    next
      case 3 with assms(2) show ?thesis by auto
    next
      case 4 with assms(1) show ?thesis by (simp add: quiet_def)
    qed
  qed
  with f show ?thesis unfolding publish_shape_def by blast
qed

lemma publish_stage_run:
  assumes "publish_stage en d depl proj p w = (r, w')"
  shows "run w (new_events w w') w' \<and>
     publish_shape en d (db w) proj p (new_events w w') \<and>
     (proj_LockedAt proj \<noteq> None \<longrightarrow> new_events w w' = [] \<and> r = Inl ErrProjectLocked) \<and>
     (if r = Inr () then db w' = activated en depl proj (db w) else db w' = db w) \<and>
     r \<in> {Inr (), Inl ErrProjectLocked, Inl ErrDB, Inl ErrS3, Inl ErrMQ} \<and>
     (r = Inl ErrProjectLocked \<longrightarrow> proj_LockedAt proj \<noteq> None)"
proof (cases "proj_LockedAt proj \<noteq> None")
  case True
  with assms have "r = Inl ErrProjectLocked" and "w' = w"
    by (auto simp: publish_stage_def)
  with True show ?thesis
    by (simp add: run_new_events[OF run_refl] run_refl publish_shape_def)
next
  case False
  let ?names = "bound_names en (db w) proj"
  let ?ob = "meta_object p (proj_ForceHTTPS proj)"
  let ?n = "EvDomainNames (proj_ID proj)"
  from False assms have
    "and_then (DomainNames en proj w) (\<lambda>domainNames w1.
     and_then (upload_meta en (metaJson p (proj_ForceHTTPS proj)) domainNames w1) (\<lambda>_ w2.
     and_then (invalidate en d domainNames w2) (\<lambda>_ w3.
     transaction en depl proj w3))) = (r, w')"
    by (simp add: publish_stage_def)
  then show ?thesis
  proof (cases rule: and_thenE)
    case (fail e)
    from DomainNames_run[OF fail(1)] fail(2)
    have 1: "run w [?n] w'" and "db w' = db w" and "r = Inl ErrDB"
      by (auto split: if_splits)
    moreover have "publish_shape en d (db w) proj p [?n]"
      by (rule publish_shape_quiet) (simp add: quiet_def)
    ultimately show ?thesis
      using False by (simp add: run_new_events[OF 1])
  next
    case (ok names w1)
    from DomainNames_run[OF ok(1)]
    have 1: "run w [?n] w1" and 2: "db w1 = db w" and 3: "names = ?names"
      by (auto split: if_splits)
    from ok(2) show ?thesis
    proof (cases rule: and_thenE)
      case (fail e)
      from upload_meta_run[OF fail(1)] fail(2) obtain evs where
        4: "run w1 evs w'" and 5: "db w' = db w1" and
        6: "\<forall>e\<in>set evs. is_upload e \<and> up_object e = ?ob \<and> up_key e \<in> meta_key ` set names" and
        7: "r = Inl ErrS3"
        by (auto simp: meta_object_json)
      from run_trans[OF 1 4] have 8: "run w ([?n] @ evs) w'" .
      have "publish_shape en d (db w) proj p ([?n] @ evs)"
        using 6 unfolding 3 by (rule publish_shape_uploads) (simp add: quiet_def)
      with 8 2 5 7 False show ?thesis
        by (simp add: run_new_events[OF 8])
    next
      case (ok x w2)
      from upload_meta_run[OF ok(1)] obtain evs where
        4: "run w1 evs w2" and 5: "db w2 = db w1" and
        6: "evs = pointer_events en (db w) proj p"
        by (auto simp: meta_object_json pointer_events_def 3)
      from run_trans[OF 1 4] have 7: "run w ([?n] @ evs) w2" .
      from ok(2) show ?thesis
      proof (cases rule: and_thenE)
        case (fail e)
        from invalidate_run[OF fail(1)] fail(2)
        have 8: "run w2 (new_events w2 w') w'" and 9: "db w' = db w2"
          and 10: "\<not> SkipInvalidation d"
          and 11: "new_events w2 w' =
                 [EvPublish (NewMessageWithJSON (Edges en) (RouteV1Invalidation en) names) False]"
          and 12: "r = Inl ErrMQ"
          by auto
        from run_trans[OF 7 8]
        have 13: "run w ([?n] @ evs @ new_events w2 w' @ []) w'" by simp
        have "publish_shape en d (db w) proj p
                (?n # pointer_events en (db w) proj p @ new_events w2 w' @ [])"
          by (rule publish_shape_full) (use 10 11 3 in auto)
        with 13 6 2 5 9 12 False show ?thesis
          by (simp add: run_new_events[OF 13])
      next
        case (ok y w3)
        from invalidate_run[OF ok(1)]
        have 8: "run w2 (new_events w2 w3) w3" and 9: "db w3 = db w2"
          and 10: "new_events w2 w3 = [] \<or>
                 (\<not> SkipInvalidation d \<and> new_events w2 w3 =
                 [EvPublish (NewMessageWithJSON (Edges en) (RouteV1Invalidation en) ?names) True])"
          unfolding 3 by (cases "SkipInvalidation d"; simp)+
        from transaction_run[OF ok(2)]
        have 11: "run w3 (new_events w3 w') w'"
          and 12: "\<forall>e\<in>set (new_events w3 w'). quiet e"
          and 13: "if r = Inr () then db w' = activated en depl proj (db w3) else db w' = db w3"
          and 14: "r = Inr () \<or> r = Inl ErrDB"
          by auto
        from run_trans[OF run_trans[OF 7 8] 11]
        have 15: "run w ([?n] @ evs @ new_events w2 w3 @ new_events w3 w') w'" by simp
        have "publish_shape en d (db w) proj p
                (?n # pointer_events en (db w) proj p @ new_events w2 w3 @ new_events w3 w')"
          using 12 10 by (rule publish_shape_full)
        with 15 6 2 5 9 13 14 False show ?thesis
          by (auto simp: run_new_events[OF 15])
      qed
    qed
  qed
qed

lemma Work_run:
  assumes "Work en (WellFormed d) w = (r, w')"
  obtains
    (conn) "r = Inl ErrDBConn" and "run w [EvDBConn] w'" and "db w' = db w"
      and "faults en (clock w)"
  | (read) "r = Inl (if faults en (Suc (clock w)) then ErrDB else ErrRecordNotFound)"
      and "run w [EvDBConn, EvFirstDeployment (DeploymentID d)] w'" and "db w' = db w"
      and "faults en (Suc (clock w)) \<or>
           find (\<lambda>x. depl_ID x = DeploymentID d) (deployments (db w)) = None"
  | (state) depl where
      "find (\<lambda>x. depl_ID x = DeploymentID d) (deployments (db w)) = Some depl"
      and "depl_State depl = StateUploaded \<or> depl_State depl = StatePendingUpload"
      and "r = Inl errUnexpectedState"
      and "run w [EvDBConn, EvFirstDeployment (DeploymentID d)] w'" and "db w' = db w"
  | (project) depl where
      "find (\<lambda>x. depl_ID x = DeploymentID d) (deployments (db w)) = Some depl"
      and "depl_State depl \<noteq> StateUploaded" and "depl_State depl \<noteq> StatePendingUpload"
      and "r = Inl (if faults en (Suc (Suc (clock w))) then ErrDB else ErrRecordNotFound)"
      and "run w (prologue d depl) w'" and "db w' = db w"
      and "faults en (Suc (Suc (clock w))) \<or>
           find (\<lambda>x. proj_ID x = depl_ProjectID depl) (projects (db w)) = None"
  | (webroot) depl proj w3 where
      "find (\<lambda>x. depl_ID x = DeploymentID d) (deployments (db w)) = Some depl"
      and "depl_State depl \<noteq> StateUploaded" and "depl_State depl \<noteq> StatePendingUpload"
      and "find (\<lambda>x. proj_ID x = depl_ProjectID depl) (projects (db w)) = Some proj"
      and "run w (prologue d depl) w3" and "db w3 = db w"
      and "\<not> SkipWebrootUpload d"
      and "webroot_stage en d depl (PrefixID depl) w3 = (r, w')" and "r \<noteq> Inr ()"
  | (publish) depl proj w3 w4 where
      "find (\<lambda>x. depl_ID x = DeploymentID d) (deployments (db w)) = Some depl"
      and "depl_State depl \<noteq> StateUploaded" and "depl_State depl \<noteq> StatePendingUpload"
      and "find (\<lambda>x. proj_ID x = depl_ProjectID depl) (projects (db w)) = Some proj"
      and "run w (prologue d depl) w3" and "db w3 = db w"
      and "if SkipWebrootUpload d then w4 = w3
           else webroot_stage en d depl (PrefixID depl) w3 = (Inr (), w4)"
      and "publish_stage en d depl proj (PrefixID depl) w4 = (r, w')"
proof -
  let ?c = "EvDBConn"
  let ?f = "EvFirstDeployment (DeploymentID d)"
  from assms have
    "and_then (dbconn_DB en w) (\<lambda>_ w1.
     and_then (First_Deployment en (DeploymentID d) w1) (\<lambda>depl w2.
       if depl_State depl = StateUploaded \<or> depl_State depl = StatePendingUpload
       then (Inl errUnexpectedState, w2)
       else
         let prefixID = PrefixID depl in
         and_then (First_Project en (depl_ProjectID depl) w2) (\<lambda>proj w3.
         and_then (if \<not> SkipWebrootUpload d then webroot_stage en d depl prefixID w3
                   else (Inr (), w3)) (\<lambda>_ w4.
         publish_stage en d depl proj prefixID w4)))) = (r, w')"
    by (simp add: Work_def json_Unmarshal_def)
  then show ?thesis
  proof (cases rule: and_thenE)
    case (fail e)
    from dbconn_DB_run[OF fail(1)] fail(2) show ?thesis
      by (intro conn) (auto split: if_splits)
  next
    case (ok x w1)
    from dbconn_DB_run[OF ok(1)]
    have 1: "run w [?c] w1" and 2: "db w1 = db w" and c1: "clock w1 = Suc (clock w)"
      by (auto simp: run_def)
    from ok(2) show ?thesis
    proof (cases rule: and_thenE)
      case (fail e)
      from First_Deployment_run[OF fail(1)] fail(2)
      have 3: "run w1 [?f] w'" and 4: "db w' = db w1"
        and 5: "r = Inl (if faults en (clock w1) then ErrDB else ErrRecordNotFound)"
        and 6: "faults en (clock w1) \<or>
           find (\<lambda>x. depl_ID x = DeploymentID d) (deployments (db w1)) = None"
        by (auto split: if_splits option.splits)
      from run_trans[OF 1 3] have "run w [?c, ?f] w'" by simp
      with 2 4 5 6 c1 show ?thesis by (intro read) auto
    next
      case (ok depl w2)
      from First_Deployment_run[OF ok(1)]
      have 3: "run w1 [?f] w2" and 4: "db w2 = db w1"
        and 5: "find (\<lambda>x. depl_ID x = DeploymentID d) (deployments (db w)) = Some depl"
        and c2: "clock w2 = Suc (Suc (clock w))"
        using 2 c1 by (auto simp: run_def split: if_splits option.splits)
      from run_trans[OF 1 3] have 6: "run w [?c, ?f] w2" by simp
      show ?thesis
      proof (cases "depl_State depl = StateUploaded \<or> depl_State depl = StatePendingUpload")
        case True
        with ok(2) have "r = Inl errUnexpectedState" and "w' = w2" by auto
        with 5 6 True 2 4 show ?thesis by (intro state[of depl]) auto
      next
        case False
        let ?p = "EvFirstProject (depl_ProjectID depl)"
        from False ok(2) have
          "and_then (First_Project en (depl_ProjectID depl) w2) (\<lambda>proj w3.
           and_then (if \<not> SkipWebrootUpload d then webroot_stage en d depl (PrefixID depl) w3
                     else (Inr (), w3)) (\<lambda>_ w4.
           publish_stage en d depl proj (PrefixID depl) w4)) = (r, w')"
          by (simp add: Let_def)
        then show ?thesis
        proof (cases rule: and_thenE)
          case (fail e)
          from First_Project_run[OF fail(1)] fail(2)
          have 7: "run w2 [?p] w'" and 8: "db w' = db w2"
            and 9: "r = Inl (if faults en (clock w2) then ErrDB else ErrRecordNotFound)"
            and 10: "faults en (clock w2) \<or>
               find (\<lambda>x. proj_ID x = depl_ProjectID depl) (projects (db w2)) = None"
            by (auto split: if_splits option.splits)
          from run_trans[OF 6 7] have "run w (prologue d depl) w'"
            by (simp add: prologue_def)
          with 5 False 9 10 2 4 8 c2 show ?thesis by (intro project[of depl]) auto
        next
          case (ok proj w3)
          from First_Project_run[OF ok(1)]
          have 7: "run w2 [?p] w3" and 8: "db w3 = db w2"
            and 9: "find (\<lambda>x. proj_ID x = depl_ProjectID depl) (projects (db w)) = Some proj"
            using 2 4 by (auto split: if_splits option.splits)
          from run_trans[OF 6 7] have 10: "run w (prologue d depl) w3"
            by (simp add: prologue_def)
          from ok(2) show ?thesis
          proof (cases rule: and_thenE)
            case (fail e)
            then have "\<not> SkipWebrootUpload d"
              and "webroot_stage en d depl (PrefixID depl) w3 = (r, w')" and "r \<noteq> Inr ()"
              by (auto split: if_splits)
            with 5 False 9 10 2 4 8 show ?thesis by (intro webroot[of depl proj w3]) auto
          next
            case (ok y w4)
            then have "if SkipWebrootUpload d then w4 = w3
                 else webroot_stage en d depl (PrefixID depl) w3 = (Inr (), w4)"
              by (auto split: if_splits)
            with ok(2) 5 False 9 10 2 4 8 show ?thesis
              by (intro publish[of depl proj w3 w4]) auto
          qed
        qed
      qed
    qed
  qed
qed

lemma and_then_Inl: "and_then (Inl e, w) f = (Inl e, w)"
  by (simp add: and_then_def)

lemma and_then_Inr: "and_then (Inr x, w) f = f x w"
  by (simp add: and_then_def)

lemma and_then_weak_cong: "m = m' \<Longrightarrow> and_then m f = and_then m' f"
  by simp

lemma string_of_nat_42: "string_of_nat 42 = ''42''"
  by (simp add: string_of_nat.simps)

lemma string_of_nat_3: "string_of_nat 3 = ''3''"
  by (simp add: string_of_nat.simps)

lemmas model_defs =
  Work_def json_Unmarshal_def and_then_Inl and_then_Inr call_defs webroot_stage_def
  gzip_NewReader_def bundle_path_def publish_stage_def transaction_def activate_def
  track_deploy_def invalidate_def NewMessageWithJSON_def metaJson_def meta_key_def
  meta_object_def PrefixID_def bound_names_def DefaultDomainName_def set_state_def
  track_props_def path_Clean_def clean_step_def filepath_Ext_def strip_params_def
  mime_TypeByExtension_def Let_def string_of_nat_42 string_of_nat_3

lemmas scenario_defs =
  env_A_def depl_A_def proj_A_def bundle_A_def db_A_def world_A_def job_A_def
  world_B_def world_C_def job_S_def env_commit_fails_def world_D_def
  env_second_pointer_fails_def

lemma run_no_upload:
  "run w evs w' \<Longrightarrow> \<forall>e\<in>set evs. \<not> is_upload e \<Longrightarrow> bucket w' = bucket w"
  by (simp add: run_def replay_id)

lemma run_no_publish:
  "run w evs w' \<Longrightarrow> \<forall>e\<in>set evs. \<not> is_publish e \<Longrightarrow> mq w' = mq w"
  by (simp add: run_def published_Nil)

lemma prologue_quiet: "e \<in> set (prologue d depl) \<Longrightarrow> \<not> is_upload e \<and> \<not> is_publish e \<and> \<not> is_download e"
  by (auto simp: prologue_def)

lemma webroot_case:
  assumes "run w (prologue d depl) w3" and "db w3 = db w"
    and "webroot_stage en d depl p w3 = (r, w')"
  obtains (files) evs_w where "run w (prologue d depl @ evs_w) w'" and "db w' = db w"
    and "\<forall>e\<in>set evs_w. \<not> is_publish e \<and> \<not> is_read_deployment e \<and>
           (is_upload e \<longrightarrow> is_webroot_upload e)"
    and "depl_State depl = StateDeployed \<longrightarrow> evs_w = [] \<and> r = Inl errUnexpectedState"
    and "r = Inr () \<longrightarrow> depl_State depl \<noteq> StateDeployed \<and>
           (\<exists>ob es. bucket w (bundle_path d p) = Some ob \<and> obj_body ob = TarGz es False \<and>
              evs_w = EvTempFile (p @ ''-optimized-bundle.tar.gz'') #
                      EvDownload (bundle_path d p) # webroot_events en p es)"
    and "r \<in> {Inr (), Inl errUnexpectedState, Inl ErrTempFile, Inl ErrS3, Inl ErrGzip, Inl ErrTar}"
    and "r = Inl errUnexpectedState \<longrightarrow> depl_State depl = StateDeployed"
proof -
  from run_no_upload[OF assms(1)] have b: "bucket w3 = bucket w"
    by (simp add: prologue_def)
  from webroot_stage_run[OF assms(3)] obtain evs where
    1: "run w3 evs w'" and 2: "db w' = db w3" and
    3: "\<forall>e\<in>set evs. \<not> is_publish e \<and> \<not> is_read_deployment e \<and>
           (is_upload e \<longrightarrow> is_webroot_upload e)" and
    4: "depl_State depl = StateDeployed \<longrightarrow> evs = [] \<and> r = Inl errUnexpectedState" and
    5: "r = Inr () \<longrightarrow> depl_State depl \<noteq> StateDeployed \<and>
        (\<exists>ob es. bucket w3 (bundle_path d p) = Some ob \<and> obj_body ob = TarGz es False \<and>
           evs = EvTempFile (p @ ''-optimized-bundle.tar.gz'') # EvDownload (bundle_path d p) #
                 map (\<lambda>h. EvUpload (file_key (webroot_of p) h) (file_object en h) True)
                     (regular_files es))" and
    6: "r \<in> {Inr (), Inl errUnexpectedState, Inl ErrTempFile, Inl ErrS3, Inl ErrGzip, Inl ErrTar}" and
    7: "r = Inl errUnexpectedState \<longrightarrow> depl_State depl = StateDeployed"
    by blast
  from run_trans[OF assms(1) 1] have a: "run w (prologue d depl @ evs) w'" .
  from 2 assms(2) have b': "db w' = db w" by simp
  from 5 b have c: "r = Inr () \<longrightarrow> depl_State depl \<noteq> StateDeployed \<and>
           (\<exists>ob es. bucket w (bundle_path d p) = Some ob \<and> obj_body ob = TarGz es False \<and>
              evs = EvTempFile (p @ ''-optimized-bundle.tar.gz'') #
                    EvDownload (bundle_path d p) # webroot_events en p es)"
    by (simp add: webroot_events_def)
  show ?thesis by (rule that[OF a b' 3 4 c 6 7])
qed

lemma publish_case:
  assumes "run w (prologue d depl) w3" and "db w3 = db w"
    and "if SkipWebrootUpload d then w4 = w3
         else webroot_stage en d depl p w3 = (Inr (), w4)"
    and "publish_stage en d depl proj p w4 = (r, w')"
  obtains (pub) evs_w evs_p where "run w (prologue d depl @ evs_w @ evs_p) w'"
    and "\<forall>e\<in>set evs_w. \<not> is_publish e \<and> \<not> is_read_deployment e \<and>
           (is_upload e \<longrightarrow> is_webroot_upload e)"
    and "if SkipWebrootUpload d then evs_w = []
         else depl_State depl \<noteq> StateDeployed \<and>
           (\<exists>ob es. bucket w (bundle_path d p) = Some ob \<and> obj_body ob = TarGz es False \<and>
              evs_w = EvTempFile (p @ ''-optimized-bundle.tar.gz'') #
                      EvDownload (bundle_path d p) # webroot_events en p es)"
    and "publish_shape en d (db w) proj p evs_p"
    and "proj_LockedAt proj \<noteq> None \<longrightarrow> evs_p = [] \<and> r = Inl ErrProjectLocked"
    and "if r = Inr () then db w' = activated en depl proj (db w) else db w' = db w"
    and "r \<in> {Inr (), Inl ErrProjectLocked, Inl ErrDB, Inl ErrS3, Inl ErrMQ}"
    and "r = Inl ErrProjectLocked \<longrightarrow> proj_LockedAt proj \<noteq> None"
proof -
  obtain evs_w where
    1: "run w (prologue d depl @ evs_w) w4" and 2: "db w4 = db w" and
    3: "\<forall>e\<in>set evs_w. \<not> is_publish e \<and> \<not> is_read_deployment e \<and>
           (is_upload e \<longrightarrow> is_webroot_upload e)" and
    4: "if SkipWebrootUpload d then evs_w = []
         else depl_State depl \<noteq> StateDeployed \<and>
           (\<exists>ob es. bucket w (bundle_path d p) = Some ob \<and> obj_body ob = TarGz es False \<and>
              evs_w = EvTempFile (p @ ''-optimized-bundle.tar.gz'') #
                      EvDownload (bundle_path d p) # webroot_events en p es)"
  proof (cases "SkipWebrootUpload d")
    case True
    with assms(1,2,3) show ?thesis by (intro that[of "[]"]) simp_all
  next
    case False
    with assms(3) have "webroot_stage en d depl p w3 = (Inr (), w4)" by simp
    with assms(1,2) show ?thesis
    proof (cases rule: webroot_case)
      case (files evs_w)
      from files(5) False have
        "if SkipWebrootUpload d then evs_w = []
         else depl_State depl \<noteq> StateDeployed \<and>
           (\<exists>ob es. bucket w (bundle_path d p) = Some ob \<and> obj_body ob = TarGz es False \<and>
              evs_w = EvTempFile (p @ ''-optimized-bundle.tar.gz'') #
                      EvDownload (bundle_path d p) # webroot_events en p es)"
        by simp
      with files(1,2,3) show ?thesis by (rule that)
    qed
  qed
  from publish_stage_run[OF assms(4)] 2 have
    5: "run w4 (new_events w4 w') w'" and
    6: "publish_shape en d (db w) proj p (new_events w4 w')" and
    7: "proj_LockedAt proj \<noteq> None \<longrightarrow> new_events w4 w' = [] \<and> r = Inl ErrProjectLocked" and
    8: "if r = Inr () then db w' = activated en depl proj (db w) else db w' = db w" and
    9: "r \<in> {Inr (), Inl ErrProjectLocked, Inl ErrDB, Inl ErrS3, Inl ErrMQ}" and
    10: "r = Inl ErrProjectLocked \<longrightarrow> proj_LockedAt proj \<noteq> None"
    by simp_all
  from run_trans[OF 1 5] have "run w (prologue d depl @ evs_w @ new_events w4 w') w'" by simp
  then show ?thesis using 3 4 6 7 8 9 10 by (rule that)
qed

lemma find_same: "find P xs = Some a \<Longrightarrow> find P xs = Some b \<Longrightarrow> a = b"
  by simp

lemma find_SomeD: "find P xs = Some x \<Longrightarrow> P x"
  by (induction xs) (auto split: if_splits)

lemma find_set_state:
  "find (\<lambda>x. depl_ID x = i) xs = Some depl \<Longrightarrow>
   find (\<lambda>x. depl_ID x = i)
        (map (\<lambda>x. if depl_ID x = depl_ID depl then set_state en s x else x) xs)
     = Some (set_state en s depl)"
proof (induction xs)
  case Nil
  then show ?case by simp
next
  case (Cons a xs)
  from find_SomeD[OF Cons.prems] have i: "depl_ID depl = i" .
  show ?case
  proof (cases "depl_ID a = i")
    case True
    with Cons.prems have "a = depl" by simp
    with True i show ?thesis by simp
  next
    case False
    with Cons.prems have "find (\<lambda>x. depl_ID x = i) xs = Some depl" by simp
    from Cons.IH[OF this] False i show ?thesis by simp
  qed
qed

lemma find_set_active:
  "find (\<lambda>x. proj_ID x = i) xs = Some proj \<Longrightarrow>
   find (\<lambda>x. proj_ID x = i)
        (map (\<lambda>x. if proj_ID x = proj_ID proj
                   then x\<lparr>proj_ActiveDeploymentID := Some k\<rparr> else x) xs)
     = Some (proj\<lparr>proj_ActiveDeploymentID := Some k\<rparr>)"
proof (induction xs)
  case Nil
  then show ?case by simp
next
  case (Cons a xs)
  from find_SomeD[OF Cons.prems] have i: "proj_ID proj = i" .
  show ?case
  proof (cases "proj_ID a = i")
    case True
    with Cons.prems have "a = proj" by simp
    with True i show ?thesis by simp
  next
    case False
    with Cons.prems have "find (\<lambda>x. proj_ID x = i) xs = Some proj" by simp
    from Cons.IH[OF this] False i show ?thesis by simp
  qed
qed

lemma upload_files_ok:
  "\<forall>n. \<not> faults en n \<Longrightarrow> fst (upload_files en webroot es False w) = Inr ()"
proof (induction es arbitrary: w)
  case Nil
  then show ?case by simp
next
  case (Cons h es)
  show ?case
  proof (cases "hdr_IsDir h")
    case True
    with Cons show ?thesis by simp
  next
    case False
    obtain r1 w1 where u: "S3_Upload en (file_key webroot h) (Bytes (hdr_Data h))
          (obj_contentType (file_object en h)) ''public-read'' w = (r1, w1)"
      by (cases "S3_Upload en (file_key webroot h) (Bytes (hdr_Data h))
          (obj_contentType (file_object en h)) ''public-read'' w")
    from S3_Upload_run[OF u] Cons.prems have "r1 = Inr ()" by simp
    with u False Cons.IH[OF Cons.prems, of w1] show ?thesis
      by (simp add: Let_def file_key_def file_object_def and_then_Inr)
  qed
qed

lemma webroot_stage_ok:
  assumes "\<forall>n. \<not> faults en n" and "depl_State depl \<noteq> StateDeployed"
    and "bucket w (bundle_path d p) = Some ob" and "obj_body ob = TarGz es False"
  shows "fst (webroot_stage en d depl p w) = Inr ()"
proof -
  obtain r1 w1 where t: "TempFile en (p @ ''-optimized-bundle.tar.gz'') w = (r1, w1)"
    by (cases "TempFile en (p @ ''-optimized-bundle.tar.gz'') w")
  from TempFile_run[OF t] assms(1) have 1: "r1 = Inr ()"
    and 2: "run w [EvTempFile (p @ ''-optimized-bundle.tar.gz'')] w1"
    by simp_all
  from run_no_upload[OF 2] have b: "bucket w1 = bucket w" by simp
  obtain r2 w2 where dl: "S3_Download en (bundle_path d p) w1 = (r2, w2)"
    by (cases "S3_Download en (bundle_path d p) w1")
  from S3_Download_run[OF dl] assms(1,3,4) b have 3: "r2 = Inr (TarGz es False)" by simp
  from upload_files_ok[OF assms(1), of "''deployments/'' @ p @ ''/webroot''" es w2]
  show ?thesis
    using assms(2) t 1 dl 3
    by (simp add: webroot_stage_def and_then_Inr gzip_NewReader_def)
qed

lemma webroot_not_pointer: "is_webroot_upload e \<Longrightarrow> \<not> is_pointer_upload e"
  using pointer_not_webroot by blast

lemma filter_upload_webroot_events:
  "filter is_upload (webroot_events en p es) = webroot_events en p es"
  by (simp add: webroot_events_def)

lemma webroot_events_webroot: "e \<in> set (webroot_events en p es) \<Longrightarrow> is_webroot_upload e"
  by (auto simp: webroot_events_def is_webroot_upload_def file_key_webroot)

lemma prologue_props:
  "filter is_upload (prologue d depl) = []"
  "filter is_pointer_upload (prologue d depl) = []"
  "filter is_publish (prologue d depl) = []"
  by (simp_all add: prologue_def is_pointer_upload_def)

lemma PrefixID_A: "PrefixID depl_A = ''ab12-42''"
  by (simp add: PrefixID_def depl_A_def string_of_nat_42)

lemma bundle_path_A: "bundle_path job_A ''ab12-42'' = ''deployments/ab12-42/raw-bundle.tar.gz''"
  by (simp add: bundle_path_def job_A_def)

lemma run_B:
  "(case Work env_A (WellFormed job_A) world_B of (r, w') \<Rightarrow>
      r = Inl ErrProjectLocked \<and>
      trace w' =
        [EvDBConn, EvFirstDeployment 42, EvFirstProject 7,
         EvTempFile ''ab12-42-optimized-bundle.tar.gz'',
         EvDownload ''deployments/ab12-42/raw-bundle.tar.gz'',
         EvUpload ''deployments/ab12-42/webroot/index.html''
           \<lparr>obj_body = Bytes ''<html></html>'', obj_contentType = ''text/html'',
            obj_acl = ''public-read''\<rparr> True] \<and>
      bucket w' ''deployments/ab12-42/webroot/index.html'' =
        Some \<lparr>obj_body = Bytes ''<html></html>'', obj_contentType = ''text/html'',
              obj_acl = ''public-read''\<rparr>)"
  by (simp add: model_defs scenario_defs cong: and_then_weak_cong)

lemma run_A:
  "(case Work env_A (WellFormed job_A) world_A of (r, w') \<Rightarrow>
      r = Inr () \<and>
      trace w' =
        [EvDBConn, EvFirstDeployment 42, EvFirstProject 7,
         EvTempFile ''ab12-42-optimized-bundle.tar.gz'',
         EvDownload ''deployments/ab12-42/raw-bundle.tar.gz'',
         EvUpload ''deployments/ab12-42/webroot/index.html''
           \<lparr>obj_body = Bytes ''<html></html>'', obj_contentType = ''text/html'',
            obj_acl = ''public-read''\<rparr> True,
         EvDomainNames 7,
         EvUpload ''domains/foo.rise.cloud/meta.json''
           \<lparr>obj_body = Json (JObject [(''prefix'', JString ''ab12-42'')]),
            obj_contentType = ''application/json'', obj_acl = ''public-read''\<rparr> True,
         EvPublish
           \<lparr>msg_exchange = ''edges'', msg_route = ''v1.invalidation'',
            msg_body = JObject [(''domains'', JArray [JString ''foo.rise.cloud''])]\<rparr> True,
         EvBegin, EvUpdateState 42 StateDeployed, EvUpdateProject 7 42, EvCommit,
         EvFirstUser 3,
         EvTrack ''3'' ''Project Deployed''
           (JObject
             [(''projectName'', JString ''foo''), (''deploymentId'', JNum 42),
              (''deploymentPrefix'', JString ''ab12''),
              (''deploymentVersion'', JNum 1), (''timeTakenInSeconds'', JNum 100)]) True,
         EvRollback])"
  by (simp add: model_defs scenario_defs cong: and_then_weak_cong)

lemma events_A:
  "new_events world_A (snd (Work env_A (WellFormed job_A) world_A)) =
        [EvDBConn, EvFirstDeployment 42, EvFirstProject 7,
         EvTempFile ''ab12-42-optimized-bundle.tar.gz'',
         EvDownload ''deployments/ab12-42/raw-bundle.tar.gz'',
         EvUpload ''deployments/ab12-42/webroot/index.html''
           \<lparr>obj_body = Bytes ''<html></html>'', obj_contentType = ''text/html'',
            obj_acl = ''public-read''\<rparr> True,
         EvDomainNames 7,
         EvUpload ''domains/foo.rise.cloud/meta.json''
           \<lparr>obj_body = Json (JObject [(''prefix'', JString ''ab12-42'')]),
            obj_contentType = ''application/json'', obj_acl = ''public-read''\<rparr> True,
         EvPublish
           \<lparr>msg_exchange = ''edges'', msg_route = ''v1.invalidation'',
            msg_body = JObject [(''domains'', JArray [JString ''foo.rise.cloud''])]\<rparr> True,
         EvBegin, EvUpdateState 42 StateDeployed, EvUpdateProject 7 42, EvCommit,
         EvFirstUser 3,
         EvTrack ''3'' ''Project Deployed''
           (JObject
             [(''projectName'', JString ''foo''), (''deploymentId'', JNum 42),
              (''deploymentPrefix'', JString ''ab12''),
              (''deploymentVersion'', JNum 1), (''timeTakenInSeconds'', JNum 100)]) True,
         EvRollback]"
proof -
  obtain r w' where x: "Work env_A (WellFormed job_A) world_A = (r, w')"
    by (cases "Work env_A (WellFormed job_A) world_A")
  have t: "trace world_A = []" by (simp add: world_A_def)
  from run_A x t show ?thesis by (simp add: new_events_def)
qed

section \<open>The claims of the specification\<close>

text \<open>
  C2: a Deploy job whose deployment is found in state \<^verbatim>\<open>uploaded\<close> or
  \<^verbatim>\<open>pending_upload\<close> is refused. Whatever the surroundings do, the run ends with an
  error, makes no upload, no download and no broadcast, and leaves the bucket, the broker
  and the database as they were; the error is the unexpected-state error as soon as the
  connection and the read of the deployment succeed, the only calls made before the check.
\<close>

theorem Work_refuses_unready_bundle:
  assumes "find (\<lambda>x. depl_ID x = DeploymentID d) (deployments (db w)) = Some depl"
    and "depl_State depl = StateUploaded \<or> depl_State depl = StatePendingUpload"
    and "Work en (WellFormed d) w = (r, w')"
  shows "(r = Inl errUnexpectedState \<or> r = Inl ErrDBConn \<or> r = Inl ErrDB) \<and>
         (\<not> faults en (clock w) \<and> \<not> faults en (Suc (clock w)) \<longrightarrow> r = Inl errUnexpectedState) \<and>
         (\<forall>e\<in>set (new_events w w'). \<not> is_upload e \<and> \<not> is_download e \<and> \<not> is_publish e) \<and>
         bucket w' = bucket w \<and> mq w' = mq w \<and> db w' = db w"
  using assms(3)
proof (cases rule: Work_run)
  case conn
  from run_no_upload[OF conn(2)] run_no_publish[OF conn(2)] run_new_events[OF conn(2)] conn
  show ?thesis by simp
next
  case read
  from run_no_upload[OF read(2)] run_no_publish[OF read(2)] run_new_events[OF read(2)] read assms(1)
  show ?thesis by simp
next
  case (state depl')
  from run_no_upload[OF state(4)] run_no_publish[OF state(4)] run_new_events[OF state(4)] state
  show ?thesis by simp
next
  case (project depl')
  with assms(1,2) show ?thesis by simp
next
  case (webroot depl' proj w3)
  with assms(1,2) show ?thesis by simp
next
  case (publish depl' proj w3 w4)
  with assms(1,2) show ?thesis by simp
qed

theorem Work_refuses_unready_bundle_witness:
  "depl_State (depl_A\<lparr>depl_State := StateUploaded\<rparr>) = StateUploaded \<and>
   fst (Work env_A (WellFormed job_A) world_C) = Inl errUnexpectedState \<and>
   bucket (snd (Work env_A (WellFormed job_A) world_C)) = bucket world_C \<and>
   mq (snd (Work env_A (WellFormed job_A) world_C)) = mq world_C \<and>
   db (snd (Work env_A (WellFormed job_A) world_C)) = db world_C"
proof -
  obtain r w' where x: "Work env_A (WellFormed job_A) world_C = (r, w')"
    by (cases "Work env_A (WellFormed job_A) world_C")
  have 1: "find (\<lambda>x. depl_ID x = DeploymentID job_A) (deployments (db world_C))
             = Some (depl_A\<lparr>depl_State := StateUploaded\<rparr>)"
    by (simp add: scenario_defs)
  have 2: "depl_State (depl_A\<lparr>depl_State := StateUploaded\<rparr>) = StateUploaded \<or>
           depl_State (depl_A\<lparr>depl_State := StateUploaded\<rparr>) = StatePendingUpload"
    by simp
  have 3: "\<not> faults env_A (clock world_C) \<and> \<not> faults env_A (Suc (clock world_C))"
    by (simp add: env_A_def)
  from Work_refuses_unready_bundle[OF 1 2 x] 3 x show ?thesis by simp
qed

text \<open>
  C3: a Deploy job that does not skip the webroot upload, for a deployment found in state
  \<^verbatim>\<open>deployed\<close>, is refused before anything is read from or written to the object
  store. Whatever the surroundings do, the run ends with an error, makes no upload, no
  download and no broadcast, and changes nothing; the error is the unexpected-state error
  as soon as the three reads that precede the check (connection, deployment, project)
  succeed.
\<close>

theorem Work_refuses_republish:
  assumes "find (\<lambda>x. depl_ID x = DeploymentID d) (deployments (db w)) = Some depl"
    and "depl_State depl = StateDeployed"
    and "\<not> SkipWebrootUpload d"
    and "Work en (WellFormed d) w = (r, w')"
  shows "(r = Inl errUnexpectedState \<or> r = Inl ErrDBConn \<or> r = Inl ErrDB \<or>
          r = Inl ErrRecordNotFound) \<and>
         (\<not> faults en (clock w) \<and> \<not> faults en (Suc (clock w)) \<and>
          \<not> faults en (Suc (Suc (clock w))) \<and>
          find (\<lambda>x. proj_ID x = depl_ProjectID depl) (projects (db w)) \<noteq> None
            \<longrightarrow> r = Inl errUnexpectedState) \<and>
         (\<forall>e\<in>set (new_events w w'). \<not> is_upload e \<and> \<not> is_download e \<and> \<not> is_publish e) \<and>
         bucket w' = bucket w \<and> mq w' = mq w \<and> db w' = db w"
  using assms(4)
proof (cases rule: Work_run)
  case conn
  from run_no_upload[OF conn(2)] run_no_publish[OF conn(2)] run_new_events[OF conn(2)] conn
  show ?thesis by simp
next
  case read
  from run_no_upload[OF read(2)] run_no_publish[OF read(2)] run_new_events[OF read(2)] read assms(1)
  show ?thesis by simp
next
  case (state depl')
  from state(1) assms(1) have "depl' = depl" by simp
  with state(2) assms(2) show ?thesis by simp
next
  case (project depl')
  from project(1) assms(1) have eq: "depl' = depl" by simp
  have q: "\<forall>e\<in>set (prologue d depl'). \<not> is_upload e \<and> \<not> is_download e \<and> \<not> is_publish e"
    by (simp add: prologue_def)
  from q run_no_upload[OF project(5)] have b: "bucket w' = bucket w" by blast
  from q run_no_publish[OF project(5)] have m: "mq w' = mq w" by blast
  from project(4) have c1: "r = Inl ErrDB \<or> r = Inl ErrRecordNotFound"
    by (cases "faults en (Suc (Suc (clock w)))") simp_all
  from project(7) eq have c2: "faults en (Suc (Suc (clock w))) \<or>
       find (\<lambda>x. proj_ID x = depl_ProjectID depl) (projects (db w)) = None"
    by simp
  show ?thesis
  proof (intro conjI)
    show "r = Inl errUnexpectedState \<or> r = Inl ErrDBConn \<or> r = Inl ErrDB \<or>
          r = Inl ErrRecordNotFound"
      using c1 by blast
    show "\<not> faults en (clock w) \<and> \<not> faults en (Suc (clock w)) \<and>
          \<not> faults en (Suc (Suc (clock w))) \<and>
          find (\<lambda>x. proj_ID x = depl_ProjectID depl) (projects (db w)) \<noteq> None
            \<longrightarrow> r = Inl errUnexpectedState"
      using c2 by auto
    show "\<forall>e\<in>set (new_events w w'). \<not> is_upload e \<and> \<not> is_download e \<and> \<not> is_publish e"
      using q unfolding run_new_events[OF project(5)] .
  qed (rule b m project(6))+
next
  case (webroot depl' proj w3)
  from webroot(1) assms(1) have eq: "depl' = depl" by simp
  from webroot(5,6,8) show ?thesis
  proof (cases rule: webroot_case)
    case (files evs_w)
    from files(4) eq assms(2) have 4: "evs_w = []" and 5: "r = Inl errUnexpectedState"
      by simp_all
    from files(1) 4 have 6: "run w (prologue d depl') w'" by simp
    have q: "\<forall>e\<in>set (prologue d depl'). \<not> is_upload e \<and> \<not> is_download e \<and> \<not> is_publish e"
      by (simp add: prologue_def)
    from q run_no_upload[OF 6] have b: "bucket w' = bucket w" by blast
    from q run_no_publish[OF 6] have m: "mq w' = mq w" by blast
    from q b m files(2) 5 show ?thesis
      unfolding run_new_events[OF 6] by simp
  qed
next
  case (publish depl' proj w3 w4)
  from publish(1) assms(1) have eq: "depl' = depl" by simp
  from publish(7) assms(3) have "webroot_stage en d depl' (PrefixID depl') w3 = (Inr (), w4)"
    by simp
  with publish(5,6) have "depl_State depl' \<noteq> StateDeployed"
  proof (cases rule: webroot_case)
    case (files evs_w)
    from files(5) show ?thesis by simp
  qed
  with eq assms(2) show ?thesis by simp
qed

theorem Work_refuses_republish_witness:
  "depl_State (depl_A\<lparr>depl_State := StateDeployed\<rparr>) = StateDeployed \<and>
   \<not> SkipWebrootUpload job_A \<and>
   fst (Work env_A (WellFormed job_A)
          (world_A\<lparr>db := db_A\<lparr>deployments := [depl_A\<lparr>depl_State := StateDeployed\<rparr>]\<rparr>\<rparr>))
     = Inl errUnexpectedState \<and>
   bucket (snd (Work env_A (WellFormed job_A)
          (world_A\<lparr>db := db_A\<lparr>deployments := [depl_A\<lparr>depl_State := StateDeployed\<rparr>]\<rparr>\<rparr>)))
     = bucket world_A"
proof -
  let ?w = "world_A\<lparr>db := db_A\<lparr>deployments := [depl_A\<lparr>depl_State := StateDeployed\<rparr>]\<rparr>\<rparr>"
  obtain r w' where x: "Work env_A (WellFormed job_A) ?w = (r, w')"
    by (cases "Work env_A (WellFormed job_A) ?w")
  have 1: "find (\<lambda>x. depl_ID x = DeploymentID job_A) (deployments (db ?w))
             = Some (depl_A\<lparr>depl_State := StateDeployed\<rparr>)"
    by (simp add: scenario_defs)
  have 2: "depl_State (depl_A\<lparr>depl_State := StateDeployed\<rparr>) = StateDeployed"
    by simp
  have 3: "\<not> SkipWebrootUpload job_A"
    by (simp add: job_A_def)
  have 4: "\<not> faults env_A (clock ?w) \<and> \<not> faults env_A (Suc (clock ?w)) \<and>
           \<not> faults env_A (Suc (Suc (clock ?w))) \<and>
           find (\<lambda>x. proj_ID x = depl_ProjectID (depl_A\<lparr>depl_State := StateDeployed\<rparr>))
                (projects (db ?w)) \<noteq> None"
    by (simp add: scenario_defs)
  from Work_refuses_republish[OF 1 2 3 x] 4 x 2 3 show ?thesis by simp
qed

text \<open>
  C9: in a run of a job with \<^verbatim>\<open>skip_invalidation\<close> no broadcast is attempted and the
  broker receives nothing; in a run of a job with \<^verbatim>\<open>skip_webroot_upload\<close> nothing is
  downloaded, no upload goes to a key under \<^verbatim>\<open>deployments/\<close>, and every upload made
  is a pointer-document upload.
\<close>

theorem Work_skip_flags:
  assumes "Work en (WellFormed d) w = (r, w')"
  shows "(SkipInvalidation d \<longrightarrow>
            (\<forall>e\<in>set (new_events w w'). \<not> is_publish e) \<and> mq w' = mq w) \<and>
         (SkipWebrootUpload d \<longrightarrow>
            (\<forall>e\<in>set (new_events w w'). \<not> is_download e \<and> \<not> is_webroot_upload e \<and>
               (is_upload e \<longrightarrow> is_pointer_upload e)))"
  using assms
proof (cases rule: Work_run)
  case conn
  from run_no_publish[OF conn(2)] run_new_events[OF conn(2)]
  show ?thesis by (simp add: is_webroot_upload_def)
next
  case read
  from run_no_publish[OF read(2)] run_new_events[OF read(2)]
  show ?thesis by (simp add: is_webroot_upload_def)
next
  case (state depl)
  from run_no_publish[OF state(4)] run_new_events[OF state(4)]
  show ?thesis by (simp add: is_webroot_upload_def)
next
  case (project depl)
  from run_no_publish[OF project(5)] run_new_events[OF project(5)]
  show ?thesis by (simp add: is_webroot_upload_def prologue_def)
next
  case (webroot depl proj w3)
  from webroot(5,6,8) show ?thesis
  proof (cases rule: webroot_case)
    case (files evs_w)
    from files(3) have 3: "\<forall>e\<in>set (prologue d depl @ evs_w). \<not> is_publish e"
      by (auto simp: prologue_def)
    from run_no_publish[OF files(1) 3] 3 webroot(7) show ?thesis
      unfolding run_new_events[OF files(1)] by simp
  qed
next
  case (publish depl proj w3 w4)
  from publish(5,6,7,8) show ?thesis
  proof (cases rule: publish_case)
  case (pub evs_w evs_p)
  note 1 = pub(1) and 2 = pub(2) and 3 = pub(3) and 4 = pub(4)
  have a: "\<not> is_publish e" if "SkipInvalidation d" and "e \<in> set (prologue d depl @ evs_w @ evs_p)" for e
  proof -
    from that(2) consider "e \<in> set (prologue d depl)" | "e \<in> set evs_w" | "e \<in> set evs_p"
      by auto
    then show ?thesis
    proof cases
      case 1 then show ?thesis by (simp add: prologue_quiet)
    next
      case 2 with pub(2) show ?thesis by simp
    next
      case 3 with 4 that(1) show ?thesis by (simp add: publish_shape_def)
    qed
  qed
  have b: "\<not> is_download e \<and> \<not> is_webroot_upload e \<and> (is_upload e \<longrightarrow> is_pointer_upload e)"
    if "SkipWebrootUpload d" and "e \<in> set (prologue d depl @ evs_w @ evs_p)" for e
  proof -
    from that 3 consider "e \<in> set (prologue d depl)" | "e \<in> set evs_p"
      by auto
    then show ?thesis
    proof cases
      case 1 then show ?thesis by (simp add: prologue_quiet is_webroot_upload_def)
    next
      case 2
      with 4 have 5: "\<not> is_download e" and
        6: "is_upload e \<longrightarrow> up_key e \<in> meta_key ` set (bound_names en (db w) proj)"
        by (simp_all add: publish_shape_def)
      from 6 have 7: "is_upload e \<longrightarrow> is_pointer_upload e"
        by (auto simp: is_pointer_upload_def meta_key_domains)
      with pointer_not_webroot[of e] have "\<not> is_webroot_upload e"
        by (auto simp: is_webroot_upload_def)
      with 5 7 show ?thesis by simp
    qed
  qed
  from a have "SkipInvalidation d \<longrightarrow> (\<forall>e\<in>set (prologue d depl @ evs_w @ evs_p). \<not> is_publish e)"
    by blast
  with run_no_publish[OF 1] b show ?thesis
    unfolding run_new_events[OF 1] by blast
  qed
qed

theorem Work_skip_flags_witness:
  "SkipInvalidation job_S \<and> SkipWebrootUpload job_S \<and>
   fst (Work env_A (WellFormed job_S) world_A) = Inr () \<and>
   mq (snd (Work env_A (WellFormed job_S) world_A)) = mq world_A \<and>
   filter is_publish (new_events world_A (snd (Work env_A (WellFormed job_S) world_A))) = [] \<and>
   filter is_download (new_events world_A (snd (Work env_A (WellFormed job_S) world_A))) = [] \<and>
   filter is_webroot_upload
     (new_events world_A (snd (Work env_A (WellFormed job_S) world_A))) = []"
proof -
  obtain r w' where x: "Work env_A (WellFormed job_S) world_A = (r, w')"
    by (cases "Work env_A (WellFormed job_S) world_A")
  have 1: "SkipInvalidation job_S \<and> SkipWebrootUpload job_S"
    by (simp add: job_S_def)
  have 2: "fst (Work env_A (WellFormed job_S) world_A) = Inr ()"
    by (simp add: model_defs scenario_defs cong: and_then_weak_cong)
  from Work_skip_flags[OF x] 1 2 x show ?thesis by (simp add: filter_empty_conv)
qed

text \<open>
  C1: the writes of the activation commit together or not at all. A run that returns an
  error leaves the database as it was, so a failure of the state update, of the project
  update or of the commit leaves \<^verbatim>\<open>active_deployment_id\<close> at its previous value. A run
  that returns no error leaves the database with exactly the two updates of the
  transaction: the deployment's row has state \<^verbatim>\<open>deployed\<close> and \<^verbatim>\<open>deployed_at\<close> set to
  the current time, and the project's row has \<^verbatim>\<open>active_deployment_id\<close> equal to the
  deployment's id.
\<close>

theorem Work_activation_atomic:
  assumes "Work en data w = (r, w')"
  shows "(r \<noteq> Inr () \<longrightarrow> db w' = db w) \<and>
         (r = Inr () \<longrightarrow>
            (\<exists>d depl proj. data = WellFormed d \<and>
               find (\<lambda>x. depl_ID x = DeploymentID d) (deployments (db w)) = Some depl \<and>
               find (\<lambda>x. proj_ID x = depl_ProjectID depl) (projects (db w)) = Some proj \<and>
               db w' = activated en depl proj (db w) \<and>
               find (\<lambda>x. depl_ID x = DeploymentID d) (deployments (db w'))
                 = Some (depl\<lparr>depl_State := StateDeployed, depl_DeployedAt := Some (now en)\<rparr>) \<and>
               find (\<lambda>x. proj_ID x = depl_ProjectID depl) (projects (db w'))
                 = Some (proj\<lparr>proj_ActiveDeploymentID := Some (DeploymentID d)\<rparr>)))"
proof (cases data)
  case Malformed
  with assms show ?thesis by (auto simp: Work_def json_Unmarshal_def)
next
  case (WellFormed d)
  from assms[unfolded WellFormed] show ?thesis
  proof (cases rule: Work_run)
    case conn
    then show ?thesis by simp
  next
    case read
    then show ?thesis by simp
  next
    case (state depl)
    from state(3,5) show ?thesis by simp
  next
    case (project depl)
    from project(4,6) show ?thesis by simp
  next
    case (webroot depl proj w3)
    from webroot(5,6,8) have "db w' = db w"
    proof (cases rule: webroot_case)
      case (files evs_w)
      from files(2) show ?thesis .
    qed
    with webroot(9) show ?thesis by simp
  next
    case (publish depl proj w3 w4)
    from publish(5,6,7,8) have
      d: "if r = Inr () then db w' = activated en depl proj (db w) else db w' = db w"
    proof (cases rule: publish_case)
      case (pub evs_w evs_p)
      from pub(6) show ?thesis .
    qed
    show ?thesis
    proof (cases "r = Inr ()")
      case False
      with d show ?thesis by simp
    next
      case True
      with d have a: "db w' = activated en depl proj (db w)" by simp
      from find_SomeD[OF publish(1)] have i: "depl_ID depl = DeploymentID d" .
      from find_set_state[OF publish(1), of en StateDeployed]
      have b: "find (\<lambda>x. depl_ID x = DeploymentID d) (deployments (db w'))
                 = Some (depl\<lparr>depl_State := StateDeployed, depl_DeployedAt := Some (now en)\<rparr>)"
        by (simp add: a activated_def set_state_def)
      from find_SomeD[OF publish(4)] have j: "proj_ID proj = depl_ProjectID depl" .
      from find_set_active[OF publish(4), of "depl_ID depl"]
      have c: "find (\<lambda>x. proj_ID x = depl_ProjectID depl) (projects (db w'))
                 = Some (proj\<lparr>proj_ActiveDeploymentID := Some (DeploymentID d)\<rparr>)"
        by (simp add: a activated_def i j)
      from True WellFormed publish(1,4) a b c show ?thesis by blast
    qed
  qed
qed

theorem Work_activation_atomic_witness:
  "fst (Work env_A (WellFormed job_A) world_A) = Inr () \<and>
   find (\<lambda>x. depl_ID x = 42) (deployments (db (snd (Work env_A (WellFormed job_A) world_A))))
     = Some (depl_A\<lparr>depl_State := StateDeployed, depl_DeployedAt := Some 1000\<rparr>) \<and>
   find (\<lambda>x. proj_ID x = 7) (projects (db (snd (Work env_A (WellFormed job_A) world_A))))
     = Some (proj_A\<lparr>proj_ActiveDeploymentID := Some 42\<rparr>) \<and>
   fst (Work env_commit_fails (WellFormed job_A) world_A) = Inl ErrDB \<and>
   db (snd (Work env_commit_fails (WellFormed job_A) world_A)) = db world_A"
proof -
  obtain r w' where x: "Work env_A (WellFormed job_A) world_A = (r, w')"
    by (cases "Work env_A (WellFormed job_A) world_A")
  obtain r2 w2 where y: "Work env_commit_fails (WellFormed job_A) world_A = (r2, w2)"
    by (cases "Work env_commit_fails (WellFormed job_A) world_A")
  have 1: "fst (Work env_A (WellFormed job_A) world_A) = Inr ()"
    by (simp add: model_defs scenario_defs cong: and_then_weak_cong)
  have 2: "fst (Work env_commit_fails (WellFormed job_A) world_A) = Inl ErrDB"
    by (simp add: model_defs scenario_defs cong: and_then_weak_cong)
  have 3: "find (\<lambda>x. depl_ID x = DeploymentID job_A) (deployments (db world_A)) = Some depl_A"
    and 4: "find (\<lambda>x. proj_ID x = depl_ProjectID depl_A) (projects (db world_A)) = Some proj_A"
    and 5: "DeploymentID job_A = 42" and 6: "depl_ProjectID depl_A = 7" and 7: "now env_A = 1000"
    by (simp_all add: scenario_defs)
  from 1 x have r: "r = Inr ()" by simp
  from 2 y have r2: "r2 \<noteq> Inr ()" by simp
  from Work_activation_atomic[OF x] r obtain d depl proj where
    a: "WellFormed job_A = WellFormed d"
    and b: "find (\<lambda>x. depl_ID x = DeploymentID d) (deployments (db world_A)) = Some depl"
    and c: "find (\<lambda>x. proj_ID x = depl_ProjectID depl) (projects (db world_A)) = Some proj"
    and e: "find (\<lambda>x. depl_ID x = DeploymentID d) (deployments (db w'))
                 = Some (depl\<lparr>depl_State := StateDeployed, depl_DeployedAt := Some (now env_A)\<rparr>)"
    and f: "find (\<lambda>x. proj_ID x = depl_ProjectID depl) (projects (db w'))
                 = Some (proj\<lparr>proj_ActiveDeploymentID := Some (DeploymentID d)\<rparr>)"
    by blast
  from a have d: "d = job_A" by simp
  from b 3 d have dd: "depl = depl_A" by simp
  from c 4 dd have pp: "proj = proj_A" by simp
  from Work_activation_atomic[OF y] r2 have g: "db w2 = db world_A" by simp
  from e f d dd pp 5 6 7 g 1 2 x y show ?thesis by simp
qed

text \<open>
  C6: a Deploy job that does not skip the webroot upload, for a deployment in a publishable
  state of a project whose \<^verbatim>\<open>locked_at\<close> is set, never returns without error, uploads
  no pointer document, attempts no broadcast and leaves the database and the broker as
  they were. When it ends with the project-locked error, the webroot stage has completed:
  the uploads of the run are exactly the uploads of the files of the bundle. It does end
  with the project-locked error when no external call fails and the bundle is an intact
  archive.
\<close>

theorem Work_locked_project:
  assumes "find (\<lambda>x. depl_ID x = DeploymentID d) (deployments (db w)) = Some depl"
    and "depl_State depl \<noteq> StateUploaded" and "depl_State depl \<noteq> StatePendingUpload"
    and "depl_State depl \<noteq> StateDeployed"
    and "find (\<lambda>x. proj_ID x = depl_ProjectID depl) (projects (db w)) = Some proj"
    and "proj_LockedAt proj \<noteq> None"
    and "\<not> SkipWebrootUpload d"
    and "Work en (WellFormed d) w = (r, w')"
  shows "r \<noteq> Inr () \<and>
         (\<forall>e\<in>set (new_events w w'). \<not> is_pointer_upload e \<and> \<not> is_publish e) \<and>
         db w' = db w \<and> mq w' = mq w \<and>
         (r = Inl ErrProjectLocked \<longrightarrow>
            (\<exists>ob es. bucket w (bundle_path d (PrefixID depl)) = Some ob \<and>
               obj_body ob = TarGz es False \<and>
               filter is_upload (new_events w w') = webroot_events en (PrefixID depl) es)) \<and>
         ((\<forall>n. \<not> faults en n) \<and>
          (\<exists>ob es. bucket w (bundle_path d (PrefixID depl)) = Some ob \<and>
               obj_body ob = TarGz es False)
            \<longrightarrow> r = Inl ErrProjectLocked)"
  using assms(8)
proof (cases rule: Work_run)
  case conn
  have q: "\<forall>e\<in>set [EvDBConn]. \<not> is_pointer_upload e \<and> \<not> is_publish e"
    by (simp add: is_pointer_upload_def)
  from run_no_publish[OF conn(2)] have m: "mq w' = mq w" by simp
  from conn(1,4) q m conn(3) show ?thesis
    unfolding run_new_events[OF conn(2)] by auto
next
  case read
  have q: "\<forall>e\<in>set [EvDBConn, EvFirstDeployment (DeploymentID d)].
             \<not> is_pointer_upload e \<and> \<not> is_publish e"
    by (simp add: is_pointer_upload_def)
  from run_no_publish[OF read(2)] have m: "mq w' = mq w" by simp
  from read(4) assms(1) have f: "faults en (Suc (clock w))" by simp
  with read(1) have r: "r = Inl ErrDB" by simp
  from r f q m read(3) show ?thesis
    unfolding run_new_events[OF read(2)] by auto
next
  case (state depl')
  from state(1) assms(1) have "depl' = depl" by simp
  with state(2) assms(2,3) show ?thesis by simp
next
  case (project depl')
  from project(1) assms(1) have eq: "depl' = depl" by simp
  have q: "\<forall>e\<in>set (prologue d depl'). \<not> is_pointer_upload e \<and> \<not> is_publish e"
    by (simp add: prologue_def is_pointer_upload_def)
  from run_no_publish[OF project(5)] have m: "mq w' = mq w" by (simp add: prologue_def)
  from project(7) assms(5) eq have f: "faults en (Suc (Suc (clock w)))" by simp
  with project(4) have r: "r = Inl ErrDB" by simp
  from r f q m project(6) show ?thesis
    unfolding run_new_events[OF project(5)] by auto
next
  case (webroot depl' proj' w3)
  from webroot(1) assms(1) have eq: "depl' = depl" by simp
  from run_no_upload[OF webroot(5)] have b3: "bucket w3 = bucket w"
    by (simp add: prologue_def)
  from webroot(5,6,8) show ?thesis
  proof (cases rule: webroot_case)
    case (files evs_w)
    have q: "\<forall>e\<in>set (prologue d depl' @ evs_w). \<not> is_pointer_upload e \<and> \<not> is_publish e"
    proof
      fix e assume "e \<in> set (prologue d depl' @ evs_w)"
      then consider "e \<in> set (prologue d depl')" | "e \<in> set evs_w" by auto
      then show "\<not> is_pointer_upload e \<and> \<not> is_publish e"
      proof cases
        case 1
        then show ?thesis by (auto simp: prologue_def is_pointer_upload_def)
      next
        case 2
        with files(3) have a: "\<not> is_publish e" and b: "is_upload e \<longrightarrow> is_webroot_upload e"
          by simp_all
        from b webroot_not_pointer[of e] have "\<not> is_pointer_upload e"
          by (auto simp: is_pointer_upload_def)
        with a show ?thesis by simp
      qed
    qed
    from q run_no_publish[OF files(1)] have m: "mq w' = mq w" by blast
    from files(6,7) assms(4) eq webroot(9) have r: "r \<noteq> Inl ErrProjectLocked"
      by auto
    have ok: "\<not> ((\<forall>n. \<not> faults en n) \<and>
          (\<exists>ob es. bucket w (bundle_path d (PrefixID depl)) = Some ob \<and>
               obj_body ob = TarGz es False))"
    proof
      assume h: "(\<forall>n. \<not> faults en n) \<and>
          (\<exists>ob es. bucket w (bundle_path d (PrefixID depl)) = Some ob \<and>
               obj_body ob = TarGz es False)"
      then obtain ob es where "bucket w3 (bundle_path d (PrefixID depl)) = Some ob"
        and "obj_body ob = TarGz es False"
        using b3 by auto
      from webroot_stage_ok[OF _ assms(4) this, of en] h
      have "fst (webroot_stage en d depl (PrefixID depl) w3) = Inr ()" by blast
      with webroot(8,9) eq show False by simp
    qed
    from webroot(9) q m files(2) r ok show ?thesis
      unfolding run_new_events[OF files(1)] by blast
  qed
next
  case (publish depl' proj' w3 w4)
  from publish(1) assms(1) have eq: "depl' = depl" by simp
  from publish(4) assms(5) eq have eqp: "proj' = proj" by simp
  from publish(5,6,7,8) show ?thesis
  proof (cases rule: publish_case)
    case (pub evs_w evs_p)
    from pub(5) assms(6) eqp have p0: "evs_p = []" and r: "r = Inl ErrProjectLocked"
      by simp_all
    from pub(3) assms(7) obtain ob es where
      b: "bucket w (bundle_path d (PrefixID depl')) = Some ob"
      and o: "obj_body ob = TarGz es False"
      and ew: "evs_w = EvTempFile (PrefixID depl' @ ''-optimized-bundle.tar.gz'') #
                      EvDownload (bundle_path d (PrefixID depl')) #
                      webroot_events en (PrefixID depl') es"
      by auto
    from pub(1) p0 have rn: "run w (prologue d depl' @ evs_w) w'" by simp
    have q: "\<forall>e\<in>set (prologue d depl' @ evs_w). \<not> is_pointer_upload e \<and> \<not> is_publish e"
    proof
      fix e assume "e \<in> set (prologue d depl' @ evs_w)"
      then consider "e \<in> set (prologue d depl')" | "e \<in> set evs_w" by auto
      then show "\<not> is_pointer_upload e \<and> \<not> is_publish e"
      proof cases
        case 1
        then show ?thesis by (auto simp: prologue_def is_pointer_upload_def)
      next
        case 2
        with pub(2) have a: "\<not> is_publish e" and b: "is_upload e \<longrightarrow> is_webroot_upload e"
          by simp_all
        from b webroot_not_pointer[of e] have "\<not> is_pointer_upload e"
          by (auto simp: is_pointer_upload_def)
        with a show ?thesis by simp
      qed
    qed
    from q run_no_publish[OF rn] have m: "mq w' = mq w" by blast
    from pub(6) r have dbs: "db w' = db w" by simp
    have f: "filter is_upload (prologue d depl' @ evs_w) = webroot_events en (PrefixID depl) es"
      unfolding ew eq by (simp add: prologue_props filter_upload_webroot_events)
    from b o f eq have ex: "\<exists>ob es. bucket w (bundle_path d (PrefixID depl)) = Some ob \<and>
               obj_body ob = TarGz es False \<and>
               filter is_upload (prologue d depl' @ evs_w) = webroot_events en (PrefixID depl) es"
      by blast
    from r q m dbs ex show ?thesis
      unfolding run_new_events[OF rn] by simp
  qed
qed

theorem Work_locked_project_witness:
  "proj_LockedAt (proj_A\<lparr>proj_LockedAt := Some 950\<rparr>) = Some 950 \<and>
   fst (Work env_A (WellFormed job_A) world_B) = Inl ErrProjectLocked \<and>
   db (snd (Work env_A (WellFormed job_A) world_B)) = db world_B \<and>
   mq (snd (Work env_A (WellFormed job_A) world_B)) = mq world_B \<and>
   filter is_pointer_upload (new_events world_B (snd (Work env_A (WellFormed job_A) world_B))) = [] \<and>
   filter is_publish (new_events world_B (snd (Work env_A (WellFormed job_A) world_B))) = []"
proof -
  obtain r w' where x: "Work env_A (WellFormed job_A) world_B = (r, w')"
    by (cases "Work env_A (WellFormed job_A) world_B")
  have 1: "find (\<lambda>x. depl_ID x = DeploymentID job_A) (deployments (db world_B)) = Some depl_A"
    by (simp add: scenario_defs)
  have 2: "depl_State depl_A \<noteq> StateUploaded" "depl_State depl_A \<noteq> StatePendingUpload"
    "depl_State depl_A \<noteq> StateDeployed"
    by (simp_all add: depl_A_def)
  have 3: "find (\<lambda>x. proj_ID x = depl_ProjectID depl_A) (projects (db world_B))
             = Some (proj_A\<lparr>proj_LockedAt := Some 950\<rparr>)"
    by (simp add: scenario_defs)
  have 4: "proj_LockedAt (proj_A\<lparr>proj_LockedAt := Some 950\<rparr>) \<noteq> None"
    by simp
  have 5: "\<not> SkipWebrootUpload job_A"
    by (simp add: job_A_def)
  have 6: "\<forall>n. \<not> faults env_A n"
    by (simp add: env_A_def)
  have 7: "bucket world_B (bundle_path job_A (PrefixID depl_A)) = Some bundle_A"
    by (simp add: PrefixID_A bundle_path_A world_B_def world_A_def)
  have 8: "obj_body bundle_A =
       TarGz [\<lparr>hdr_Name = ''./'', hdr_IsDir = True, hdr_Data = []\<rparr>,
               \<lparr>hdr_Name = ''./index.html'', hdr_IsDir = False, hdr_Data = ''<html></html>''\<rparr>]
              False"
    by (simp add: bundle_A_def)
  from 6 7 8 have 9: "(\<forall>n. \<not> faults env_A n) \<and>
          (\<exists>ob es. bucket world_B (bundle_path job_A (PrefixID depl_A)) = Some ob \<and>
               obj_body ob = TarGz es False)"
    by blast
  from Work_locked_project[OF 1 2 3 4 5 x] 9 x show ?thesis
    by (simp add: filter_empty_conv)
qed

text \<open>
  C5, as amended: \<^verbatim>\<open>locked_at\<close>, as read with the project's row at the start, is
  checked at one point of the pipeline, after the webroot stage and just before the
  pointer documents are written. A run on a project whose \<^verbatim>\<open>locked_at\<close> is set never
  returns without error, uploads no pointer document, attempts no broadcast and changes
  neither the database nor the broker. When it ends with the project-locked error, the
  run has made the three reads of the start and, unless the job skips it, the complete
  webroot stage, and nothing else. With the webroot upload skipped, a publishable state
  and the three reads succeeding, it ends with the project-locked error.
\<close>

theorem Work_lock_check_point:
  assumes "find (\<lambda>x. depl_ID x = DeploymentID d) (deployments (db w)) = Some depl"
    and "find (\<lambda>x. proj_ID x = depl_ProjectID depl) (projects (db w)) = Some proj"
    and "proj_LockedAt proj \<noteq> None"
    and "Work en (WellFormed d) w = (r, w')"
  shows "r \<noteq> Inr () \<and>
         (\<forall>e\<in>set (new_events w w'). \<not> is_pointer_upload e \<and> \<not> is_publish e) \<and>
         db w' = db w \<and> mq w' = mq w \<and>
         (r = Inl ErrProjectLocked \<longrightarrow>
            (if SkipWebrootUpload d then new_events w w' = prologue d depl
             else \<exists>ob es. bucket w (bundle_path d (PrefixID depl)) = Some ob \<and>
                    obj_body ob = TarGz es False \<and>
                    new_events w w' =
                      prologue d depl @
                      EvTempFile (PrefixID depl @ ''-optimized-bundle.tar.gz'') #
                      EvDownload (bundle_path d (PrefixID depl)) #
                      webroot_events en (PrefixID depl) es)) \<and>
         (SkipWebrootUpload d \<and> depl_State depl \<noteq> StateUploaded \<and>
          depl_State depl \<noteq> StatePendingUpload \<and> \<not> faults en (clock w) \<and>
          \<not> faults en (Suc (clock w)) \<and> \<not> faults en (Suc (Suc (clock w)))
            \<longrightarrow> r = Inl ErrProjectLocked)"
  using assms(4)
proof (cases rule: Work_run)
  case conn
  have q: "\<forall>e\<in>set [EvDBConn]. \<not> is_pointer_upload e \<and> \<not> is_publish e"
    by (simp add: is_pointer_upload_def)
  from run_no_publish[OF conn(2)] have m: "mq w' = mq w" by simp
  from conn(1,4) q m conn(3) show ?thesis
    unfolding run_new_events[OF conn(2)] by auto
next
  case read
  have q: "\<forall>e\<in>set [EvDBConn, EvFirstDeployment (DeploymentID d)].
             \<not> is_pointer_upload e \<and> \<not> is_publish e"
    by (simp add: is_pointer_upload_def)
  from run_no_publish[OF read(2)] have m: "mq w' = mq w" by simp
  from read(4) assms(1) have f: "faults en (Suc (clock w))" by simp
  with read(1) have r: "r = Inl ErrDB" by simp
  from r f q m read(3) show ?thesis
    unfolding run_new_events[OF read(2)] by auto
next
  case (state depl')
  from state(1) assms(1) have eq: "depl' = depl" by simp
  have q: "\<forall>e\<in>set [EvDBConn, EvFirstDeployment (DeploymentID d)].
             \<not> is_pointer_upload e \<and> \<not> is_publish e"
    by (simp add: is_pointer_upload_def)
  from run_no_publish[OF state(4)] have m: "mq w' = mq w" by simp
  from state(2) eq have s: "depl_State depl = StateUploaded \<or> depl_State depl = StatePendingUpload"
    by simp
  from state(3) s q m state(5) show ?thesis
    unfolding run_new_events[OF state(4)] by auto
next
  case (project depl')
  from project(1) assms(1) have eq: "depl' = depl" by simp
  have q: "\<forall>e\<in>set (prologue d depl'). \<not> is_pointer_upload e \<and> \<not> is_publish e"
    by (simp add: prologue_def is_pointer_upload_def)
  from run_no_publish[OF project(5)] have m: "mq w' = mq w" by (simp add: prologue_def)
  from project(7) assms(2) eq have f: "faults en (Suc (Suc (clock w)))" by simp
  with project(4) have r: "r = Inl ErrDB" by simp
  from r f q m project(6) show ?thesis
    unfolding run_new_events[OF project(5)] by auto
next
  case (webroot depl' proj' w3)
  from webroot(5,6,8) show ?thesis
  proof (cases rule: webroot_case)
    case (files evs_w)
    have q: "\<forall>e\<in>set (prologue d depl' @ evs_w). \<not> is_pointer_upload e \<and> \<not> is_publish e"
    proof
      fix e assume "e \<in> set (prologue d depl' @ evs_w)"
      then consider "e \<in> set (prologue d depl')" | "e \<in> set evs_w" by auto
      then show "\<not> is_pointer_upload e \<and> \<not> is_publish e"
      proof cases
        case 1
        then show ?thesis by (auto simp: prologue_def is_pointer_upload_def)
      next
        case 2
        with files(3) have a: "\<not> is_publish e" and b: "is_upload e \<longrightarrow> is_webroot_upload e"
          by simp_all
        from b webroot_not_pointer[of e] have "\<not> is_pointer_upload e"
          by (auto simp: is_pointer_upload_def)
        with a show ?thesis by simp
      qed
    qed
    from q run_no_publish[OF files(1)] have m: "mq w' = mq w" by blast
    from files(6) webroot(9) have r: "r \<noteq> Inl ErrProjectLocked" by auto
    from webroot(9) q m files(2) r webroot(7) show ?thesis
      unfolding run_new_events[OF files(1)] by simp
  qed
next
  case (publish depl' proj' w3 w4)
  from publish(1) assms(1) have eq: "depl' = depl" by simp
  from publish(4) assms(2) eq have eqp: "proj' = proj" by simp
  from publish(5,6,7,8) show ?thesis
  proof (cases rule: publish_case)
    case (pub evs_w evs_p)
    from pub(5) assms(3) eqp have p0: "evs_p = []" and r: "r = Inl ErrProjectLocked"
      by simp_all
    from pub(1) p0 have rn: "run w (prologue d depl' @ evs_w) w'" by simp
    have q: "\<forall>e\<in>set (prologue d depl' @ evs_w). \<not> is_pointer_upload e \<and> \<not> is_publish e"
    proof
      fix e assume "e \<in> set (prologue d depl' @ evs_w)"
      then consider "e \<in> set (prologue d depl')" | "e \<in> set evs_w" by auto
      then show "\<not> is_pointer_upload e \<and> \<not> is_publish e"
      proof cases
        case 1
        then show ?thesis by (auto simp: prologue_def is_pointer_upload_def)
      next
        case 2
        with pub(2) have a: "\<not> is_publish e" and b: "is_upload e \<longrightarrow> is_webroot_upload e"
          by simp_all
        from b webroot_not_pointer[of e] have "\<not> is_pointer_upload e"
          by (auto simp: is_pointer_upload_def)
        with a show ?thesis by simp
      qed
    qed
    from q run_no_publish[OF rn] have m: "mq w' = mq w" by blast
    from pub(6) r have dbs: "db w' = db w" by simp
    have sh: "if SkipWebrootUpload d then prologue d depl' @ evs_w = prologue d depl
             else \<exists>ob es. bucket w (bundle_path d (PrefixID depl)) = Some ob \<and>
                    obj_body ob = TarGz es False \<and>
                    prologue d depl' @ evs_w =
                      prologue d depl @
                      EvTempFile (PrefixID depl @ ''-optimized-bundle.tar.gz'') #
                      EvDownload (bundle_path d (PrefixID depl)) #
                      webroot_events en (PrefixID depl) es"
      using pub(3) unfolding eq by (cases "SkipWebrootUpload d") auto
    from r q m dbs sh show ?thesis
      unfolding run_new_events[OF rn] by simp
  qed
qed

theorem Work_lock_check_point_witness:
  "proj_LockedAt (proj_A\<lparr>proj_LockedAt := Some 950\<rparr>) = Some 950 \<and>
   SkipWebrootUpload job_S \<and>
   fst (Work env_A (WellFormed job_S) world_B) = Inl ErrProjectLocked \<and>
   new_events world_B (snd (Work env_A (WellFormed job_S) world_B)) =
     [EvDBConn, EvFirstDeployment 42, EvFirstProject 7] \<and>
   db (snd (Work env_A (WellFormed job_S) world_B)) = db world_B \<and>
   mq (snd (Work env_A (WellFormed job_S) world_B)) = mq world_B"
proof -
  obtain r w' where x: "Work env_A (WellFormed job_S) world_B = (r, w')"
    by (cases "Work env_A (WellFormed job_S) world_B")
  have 1: "find (\<lambda>x. depl_ID x = DeploymentID job_S) (deployments (db world_B)) = Some depl_A"
    by (simp add: scenario_defs)
  have 2: "find (\<lambda>x. proj_ID x = depl_ProjectID depl_A) (projects (db world_B))
             = Some (proj_A\<lparr>proj_LockedAt := Some 950\<rparr>)"
    by (simp add: scenario_defs)
  have 3: "proj_LockedAt (proj_A\<lparr>proj_LockedAt := Some 950\<rparr>) \<noteq> None"
    by simp
  have 4: "SkipWebrootUpload job_S \<and> depl_State depl_A \<noteq> StateUploaded \<and>
          depl_State depl_A \<noteq> StatePendingUpload \<and> \<not> faults env_A (clock world_B) \<and>
          \<not> faults env_A (Suc (clock world_B)) \<and> \<not> faults env_A (Suc (Suc (clock world_B)))"
    by (simp add: scenario_defs)
  have 5: "prologue job_S depl_A = [EvDBConn, EvFirstDeployment 42, EvFirstProject 7]"
    by (simp add: prologue_def scenario_defs)
  from Work_lock_check_point[OF 1 2 3 x] 4 5 x show ?thesis
    by simp
qed

text \<open>
  C5, as stated, fails: there is no check at the start. In scenario B the project is
  locked, and the run still creates the scratch file, downloads the bundle and uploads
  \<^verbatim>\<open>index.html\<close> to the webroot before it ends with the project-locked error.
\<close>

theorem lock_not_checked_at_start:
  "projects (db world_B) = [proj_A\<lparr>proj_LockedAt := Some 950\<rparr>] \<and>
   proj_LockedAt (proj_A\<lparr>proj_LockedAt := Some 950\<rparr>) = Some 950 \<and>
   fst (Work env_A (WellFormed job_A) world_B) = Inl ErrProjectLocked \<and>
   new_events world_B (snd (Work env_A (WellFormed job_A) world_B)) =
     [EvDBConn, EvFirstDeployment 42, EvFirstProject 7,
      EvTempFile ''ab12-42-optimized-bundle.tar.gz'',
      EvDownload ''deployments/ab12-42/raw-bundle.tar.gz'',
      EvUpload ''deployments/ab12-42/webroot/index.html''
        \<lparr>obj_body = Bytes ''<html></html>'', obj_contentType = ''text/html'',
         obj_acl = ''public-read''\<rparr> True] \<and>
   bucket (snd (Work env_A (WellFormed job_A) world_B))
       ''deployments/ab12-42/webroot/index.html'' =
     Some \<lparr>obj_body = Bytes ''<html></html>'', obj_contentType = ''text/html'',
           obj_acl = ''public-read''\<rparr> \<and>
   bucket world_B ''deployments/ab12-42/webroot/index.html'' = None"
proof -
  obtain r w' where x: "Work env_A (WellFormed job_A) world_B = (r, w')"
    by (cases "Work env_A (WellFormed job_A) world_B")
  have t: "trace world_B = []" by (simp add: scenario_defs)
  from run_B x t show ?thesis
    by (simp add: new_events_def) (simp add: scenario_defs)
qed

end
